theory Spec2Isabelle
  imports Main
begin

section \<open>The diff of two matched chains (history/base.js, resolveQueue)\<close>

text \<open>
  A matched chain is an array of route records. JavaScript compares records with
  \<open>!==\<close>, that is by reference: the function \<open>oid\<close> gives the identity of a record
  object, and two entries are the same object exactly when their identities are equal.
  Reading an array beyond its length yields \<open>undefined\<close>, modelled by \<open>None\<close>.
\<close>

definition js_index :: "'a list \<Rightarrow> nat \<Rightarrow> 'a option" where
  "js_index xs i = (if i < length xs then Some (xs ! i) else None)"

record 'r queue_diff =
  updated :: "'r list"
  activated :: "'r list"
  deactivated :: "'r list"

text \<open>The \<open>for (i = 0; i < max; i++)\<close> loop with its \<open>break\<close>; the result is the final \<open>i\<close>.\<close>

function resolveQueue_loop :: "('r \<Rightarrow> nat) \<Rightarrow> 'r list \<Rightarrow> 'r list \<Rightarrow> nat \<Rightarrow> nat \<Rightarrow> nat" where
  "resolveQueue_loop oid current nxt mx i =
     (if i < mx
      then (if map_option oid (js_index current i) \<noteq> map_option oid (js_index nxt i) then i
            else resolveQueue_loop oid current nxt mx (Suc i))
      else i)"
  by pat_completeness auto
termination
  by (relation "measure (\<lambda>(oid, current, nxt, mx, i). mx - i)") auto

declare resolveQueue_loop.simps [simp del]

definition resolveQueue :: "('r \<Rightarrow> nat) \<Rightarrow> 'r list \<Rightarrow> 'r list \<Rightarrow> 'r queue_diff" where
  "resolveQueue oid current nxt =
     (let mx = max (length current) (length nxt);
          i = resolveQueue_loop oid current nxt mx 0
      in \<lparr> updated = take i nxt, activated = drop i nxt, deactivated = drop i current \<rparr>)"

text \<open>
  The specification's wording: walk both chains from index 0 while corresponding
  records are identical; the first index of divergence is where the walk stops.
\<close>

definition first_divergence :: "('r \<Rightarrow> nat) \<Rightarrow> 'r list \<Rightarrow> 'r list \<Rightarrow> nat" where
  "first_divergence oid current nxt =
     length (takeWhile (\<lambda>(a, b). oid a = oid b) (zip current nxt))"

section \<open>Data model\<close>

text \<open>
  JavaScript truthiness of an optional string: \<open>undefined\<close> and the empty string are
  falsy.
\<close>

fun truthy :: "string option \<Rightarrow> bool" where
  "truthy None = False"
| "truthy (Some s) = (s \<noteq> [])"

text \<open>
  Objects used as dictionaries (\<open>params\<close>) are plain objects: the association list of
  their own properties in insertion order, every key at most once, with
  \<open>Object.prototype\<close> as prototype. \<open>js_in\<close> is the \<open>in\<close> operator, which
  also finds the properties of \<open>Object.prototype\<close>. \<open>obj_set\<close> is an assignment
  \<open>o[k] = v\<close> of a string or of \<open>undefined\<close>: a new key goes last, and an
  assignment to \<open>__proto__\<close> on an object without such an own property goes to the
  accessor of \<open>Object.prototype\<close>, which ignores every value that is neither an object
  nor \<open>null\<close>.
\<close>

definition object_prototype_keys :: "string list" where
  "object_prototype_keys =
     [''constructor'', ''__defineGetter__'', ''__defineSetter__'', ''hasOwnProperty'',
      ''__lookupGetter__'', ''__lookupSetter__'', ''isPrototypeOf'', ''propertyIsEnumerable'',
      ''toString'', ''valueOf'', ''__proto__'', ''toLocaleString'']"

definition js_in :: "string \<Rightarrow> (string \<times> 'v) list \<Rightarrow> bool" where
  "js_in k obj = (k \<in> fst ` set obj \<or> k \<in> set object_prototype_keys)"

fun own_set :: "'k \<Rightarrow> 'v \<Rightarrow> ('k \<times> 'v) list \<Rightarrow> ('k \<times> 'v) list" where
  "own_set k v [] = [(k, v)]"
| "own_set k v (p # ps) = (if fst p = k then (k, v) # ps else p # own_set k v ps)"

definition obj_set :: "string \<Rightarrow> 'v \<Rightarrow> (string \<times> 'v) list \<Rightarrow> (string \<times> 'v) list" where
  "obj_set k v obj =
     (if k = ''__proto__'' \<and> k \<notin> fst ` set obj then obj else own_set k v obj)"

text \<open>
  Route parameters: a parameter can be present with the value \<open>undefined\<close> (an
  optional capture group that did not take part in the match), modelled by \<open>None\<close>.
\<close>

type_synonym params = "(string \<times> string option) list"
type_synonym query = "(string \<times> string) list"

text \<open>
  The compiled pattern of a record (the result of the external path-to-regexp library):
  its keys, and what \<open>path.match(regex)\<close> returns, the captured groups \<open>m[1..]\<close>
  or \<open>None\<close> when the path does not match. The library names an unnamed group by
  its index.
\<close>

datatype key_name = KeyStr string | KeyNum nat

record param_key =
  key_name :: key_name
  key_optional :: bool

record route_regex =
  regex_match :: "string \<Rightarrow> string option list option"
  keys :: "param_key list"

record pr_options =
  strict :: bool
  sensitive :: "bool option"

text \<open>
  Functions supplied by the application (guards, redirect functions, lazy view factories)
  are reference values; the model names each by a number and reads its behaviour from
  the environment below.
\<close>

datatype hook_value = HookFn nat | HookFns "nat list"

record component_options =
  beforeRouteEnter :: "hook_value option"
  beforeRouteUpdate :: "hook_value option"
  beforeRouteLeave :: "hook_value option"

text \<open>
  A view definition: a plain options object, a constructor (a function carrying
  \<open>cid\<close>), or a factory (a function without \<open>cid\<close>).
\<close>

datatype view_def =
    ViewObject component_options
  | ViewCtor nat component_options
  | ViewFactory nat

record redirect_obj =
  ro_name :: "string option"
  ro_path :: "string option"
  ro_query :: "query option"
  ro_hash :: "string option"
  ro_params :: "params option"

datatype redirect_option = RedirStr string | RedirObj redirect_obj | RedirFn nat

text \<open>
  A route declaration (RouteConfig). \<open>children\<close> and \<open>alias\<close> are lists: an absent
  \<open>children\<close> is the empty list, an absent \<open>alias\<close> the empty list and a single
  alias string a one-element list, which is how addRouteRecord treats them. The opaque
  fields \<open>meta\<close> and \<open>props\<close>, which no function below reads, are left out.
\<close>

datatype route_config = RouteConfig
  (cfg_path: string)
  (cfg_name: "string option")
  (cfg_component: "view_def option")
  (cfg_components: "(string \<times> view_def option) list option")
  (cfg_redirect: "redirect_option option")
  (cfg_beforeEnter: "nat option")
  (cfg_children: "route_config list")
  (cfg_alias: "string list")
  (cfg_caseSensitive: "bool option")
  (cfg_pathToRegexpOptions: "pr_options option")

text \<open>
  A route record. \<open>rec_uid\<close> is the identity of the record object: two records are
  the same object exactly when they carry the same number. The mutable \<open>instances\<close>
  table of a record lives in the navigation state, keyed by \<open>rec_uid\<close>.
\<close>

datatype route_record = RouteRecord
  (rec_uid: nat)
  (rec_path: string)
  (rec_regex: route_regex)
  (rec_components: "(string \<times> view_def option) list")
  (rec_name: "string option")
  (rec_parent: "route_record option")
  (rec_matchAs: "string option")
  (rec_redirect: "redirect_option option")
  (rec_beforeEnter: "nat option")

text \<open>
  The three lookup structures; \<open>next_uid\<close> counts the record objects created so far.
\<close>

record route_table =
  pathList :: "string list"
  pathMap :: "string \<rightharpoonup> route_record"
  nameMap :: "string \<rightharpoonup> route_record"
  next_uid :: nat

record location =
  loc_normalized :: bool
  loc_name :: "string option"
  loc_path :: "string option"
  loc_params :: "params option"
  loc_query :: "query option"
  loc_hash :: "string option"

datatype raw_location = RawString string | RawLocation location

text \<open>
  A Route. \<open>route_ref\<close> is the identity of the Route object (\<open>0\<close> is the START
  sentinel); a Route returned by the matcher is a new object and receives its identity
  from the navigation controller.
\<close>

record route =
  route_ref :: nat
  route_name :: "string option"
  route_path :: string
  route_hash :: string
  route_query :: query
  route_params :: params
  route_fullPath :: string
  route_matched :: "route_record list"
  route_redirectedFrom :: "string option"

datatype redirect_value = RvStr string | RvObj redirect_obj | RvOther

datatype js_error = RangeError | TypeError | URIError

section \<open>Collaborators outside the sources\<close>

text \<open>
  The functions below are imported by the sources but defined elsewhere (the
  path-to-regexp library, util/path.js, util/params.js, util/query.js, util/location.js,
  the built-in decodeURIComponent) or are supplied by the application. They are
  parameters of the model: every theorem holds for all of them.
  \<open>production\<close> is \<open>process.env.NODE_ENV === 'production'\<close>;
  \<open>decodeURIComponent\<close> returns \<open>None\<close> where the built-in throws URIError.
\<close>

record env =
  production :: bool
  Regexp :: "string \<Rightarrow> pr_options \<Rightarrow> route_regex"
  cleanPath :: "string \<Rightarrow> string"
  resolvePath :: "string \<Rightarrow> string \<Rightarrow> bool \<Rightarrow> string"
  fillParams :: "string \<Rightarrow> params option \<Rightarrow> string"
  decodeURIComponent :: "string \<Rightarrow> string option"
  stringifyQuery :: "query \<Rightarrow> string"
  parseLocation :: "raw_location \<Rightarrow> route option \<Rightarrow> location"
  redirect_fn :: "nat \<Rightarrow> route \<Rightarrow> redirect_value"

section \<open>The route table builder (create-route-map.js)\<close>

text \<open>\<open>path.replace(/\/$/, '')\<close>: one trailing slash is removed.\<close>

definition strip_trailing_slash :: "string \<Rightarrow> string" where
  "strip_trailing_slash path =
     (if path \<noteq> [] \<and> last path = CHR ''/'' then butlast path else path)"

definition normalizePath :: "env \<Rightarrow> string \<Rightarrow> route_record option \<Rightarrow> bool \<Rightarrow> string" where
  "normalizePath e path parent strict_opt =
     (let path1 = (if \<not> strict_opt then strip_trailing_slash path else path)
      in if js_index path1 0 = Some (CHR ''/'') then path1
         else case parent of
                None \<Rightarrow> path1
              | Some p \<Rightarrow> cleanPath e (rec_path p @ ''/'' @ path1))"

definition compileRouteRegex :: "env \<Rightarrow> string \<Rightarrow> pr_options \<Rightarrow> route_regex" where
  "compileRouteRegex e path opts = Regexp e path opts"

text \<open>
  The weight of a declaration bounds the work of addRouteRecord: every alias visits the
  children once more.
\<close>

fun cfg_weight :: "route_config \<Rightarrow> nat" where
  "cfg_weight (RouteConfig p n c cs r b children aliases cs_opt pr_opt) =
     (1 + sum_list (map cfg_weight children)) * (1 + length aliases)"

function addRouteRecord ::
  "env \<Rightarrow> route_table \<Rightarrow> route_config \<Rightarrow> route_record option \<Rightarrow> string option \<Rightarrow> route_table"
where
  "addRouteRecord e tbl route parent matchAs =
     (let path = cfg_path route;
          name = cfg_name route;
          opts0 = (case cfg_pathToRegexpOptions route of
                     None \<Rightarrow> \<lparr> strict = False, sensitive = None \<rparr>
                   | Some opts \<Rightarrow> opts);
          normalizedPath = normalizePath e path parent (strict opts0);
          pathToRegexpOptions =
            (case cfg_caseSensitive route of
               None \<Rightarrow> opts0
             | Some b \<Rightarrow> opts0 \<lparr> sensitive := Some b \<rparr>);
          record = RouteRecord (next_uid tbl) normalizedPath
                     (compileRouteRegex e normalizedPath pathToRegexpOptions)
                     (case cfg_components route of
                        Some cs \<Rightarrow> cs
                      | None \<Rightarrow> [(''default'', cfg_component route)])
                     name parent matchAs (cfg_redirect route) (cfg_beforeEnter route);
          tbl0 = tbl \<lparr> next_uid := Suc (next_uid tbl) \<rparr>;
          tbl1 = fold (\<lambda>child t.
                    addRouteRecord e t child (Some record)
                      (if truthy matchAs
                       then Some (cleanPath e (the matchAs @ ''/'' @ cfg_path child))
                       else None))
                  (cfg_children route) tbl0;
          tbl2 = (if pathMap tbl1 (rec_path record) = None
                  then tbl1 \<lparr> pathList := pathList tbl1 @ [rec_path record],
                              pathMap := (pathMap tbl1)(rec_path record \<mapsto> record) \<rparr>
                  else tbl1);
          tbl3 = fold (\<lambda>alias t.
                    if \<not> production e \<and> alias = path then t
                    else addRouteRecord e t
                           (RouteConfig alias None None None None None (cfg_children route) []
                              None None)
                           parent
                           (Some (if rec_path record \<noteq> [] then rec_path record else ''/'')))
                  (cfg_alias route) tbl2
      in if truthy name \<and> nameMap tbl3 (the name) = None
         then tbl3 \<lparr> nameMap := (nameMap tbl3)(the name \<mapsto> record) \<rparr>
         else tbl3)"
  by pat_completeness auto
termination
proof (relation "measure (\<lambda>(e, tbl, route, parent, matchAs). cfg_weight route)", goal_cases)
  case 1
  show ?case by simp
next
  case (2 e tbl route parent matchAs x xa xb xc xd xba xbb xe xf)
  from \<open>xe \<in> set (cfg_children route)\<close>
  have "cfg_weight xe \<le> sum_list (map cfg_weight (cfg_children route))"
    by (simp add: member_le_sum_list)
  also have "\<dots> < (1 + sum_list (map cfg_weight (cfg_children route))) * 1"
    by simp
  also have "\<dots> \<le> cfg_weight route"
    by (cases route) (simp del: mult_1_right)
  finally show ?case by simp
next
  case (3 e tbl route parent matchAs x xa xb xc xd xba xbb xbc xbd xaa xab)
  from \<open>xaa \<in> set (cfg_alias route)\<close> have "0 < length (cfg_alias route)"
    by (cases "cfg_alias route") auto
  then show ?case by (cases route) simp
qed

declare addRouteRecord.simps [simp del]


text \<open>
  The pass that moves the wildcard entries to the end:
  \<^verbatim>\<open>for (let i = 0, l = pathList.length; i < l; i++)
    if (pathList[i] === '*') { pathList.push(pathList.splice(i, 1)[0]); l--; i-- }\<close>
\<close>

function wildcard_loop :: "string list \<Rightarrow> nat \<Rightarrow> nat \<Rightarrow> string list" where
  "wildcard_loop pl i l =
     (if i < l
      then (if js_index pl i = Some ''*''
            then wildcard_loop (take i pl @ drop (Suc i) pl @ [''*'']) i (l - 1)
            else wildcard_loop pl (Suc i) l)
      else pl)"
  by pat_completeness auto
termination
  by (relation "measure (\<lambda>(pl, i, l). l - i)") auto

declare wildcard_loop.simps [simp del]

definition empty_table :: route_table where
  "empty_table = \<lparr> pathList = [], pathMap = Map.empty, nameMap = Map.empty, next_uid = 0 \<rparr>"

text \<open>The \<open>routes.forEach\<close> of createRouteMap.\<close>

definition registerRoutes :: "env \<Rightarrow> route_config list \<Rightarrow> route_table \<Rightarrow> route_table" where
  "registerRoutes e routes tbl = fold (\<lambda>route t. addRouteRecord e t route None None) routes tbl"

text \<open>
  createRouteMap: the three old structures are passed together or not at all
  (\<open>oldPathList || []\<close> and so on), hence one optional table. The development-only
  warning about missing leading slashes has no effect on the result.
\<close>

definition createRouteMap :: "env \<Rightarrow> route_config list \<Rightarrow> route_table option \<Rightarrow> route_table" where
  "createRouteMap e routes old =
     (let tbl = registerRoutes e routes (case old of None \<Rightarrow> empty_table | Some t \<Rightarrow> t)
      in tbl \<lparr> pathList := wildcard_loop (pathList tbl) 0 (length (pathList tbl)) \<rparr>)"

text \<open>
  A table built by the constructor and then extended by any number of addRoutes calls
  (create-matcher.js: \<open>createRouteMap(routes)\<close>, then
  \<open>createRouteMap(routes, pathList, pathMap, nameMap)\<close> for each call).
\<close>

definition matcher_addRoutes :: "env \<Rightarrow> route_table \<Rightarrow> route_config list \<Rightarrow> route_table" where
  "matcher_addRoutes e tbl routes = createRouteMap e routes (Some tbl)"

definition built_table :: "env \<Rightarrow> route_config list \<Rightarrow> route_config list list \<Rightarrow> route_table" where
  "built_table e routes additions = foldl (matcher_addRoutes e) (createRouteMap e routes None) additions"

text \<open>The invariant of the specification, as an executable predicate.\<close>

definition table_consistent :: "route_table \<Rightarrow> bool" where
  "table_consistent tbl =
     (dom (pathMap tbl) = set (pathList tbl) \<and> distinct (pathList tbl))"

text \<open>A table that is consistent and whose path list continues that of another.\<close>

definition extends_table :: "route_table \<Rightarrow> route_table \<Rightarrow> bool" where
  "extends_table t t' =
     (table_consistent t' \<and> (\<exists>ys. pathList t' = pathList t @ ys))"

definition wildcards_last :: "string list \<Rightarrow> bool" where
  "wildcards_last pl = (pl = filter (\<lambda>p. p \<noteq> ''*'') pl @ filter (\<lambda>p. p = ''*'') pl)"


section \<open>Routes (util/route.js)\<close>

text \<open>
  Modelled from the spec: util/route.js (createRoute, formatMatch, getFullPath) is not
  among the sources. The specification gives a Route the fields \<open>path\<close>, \<open>name\<close>,
  \<open>params\<close>, \<open>query\<close>, \<open>hash\<close>, \<open>fullPath\<close> (path + query + hash),
  \<open>matched\<close> (the chain formed by walking \<open>parent\<close> links from the record up
  to the root and reversing; empty for a failed match) and an optional
  \<open>redirectedFrom\<close>. Absent fields of the location default as the call sites in
  create-matcher.js require: path \<open>/\<close>, empty hash, empty query and params.
\<close>

fun formatMatch :: "route_record \<Rightarrow> route_record list" where
  "formatMatch (RouteRecord u p rx cs n parent m rd be) =
     (case parent of
        None \<Rightarrow> [RouteRecord u p rx cs n parent m rd be]
      | Some q \<Rightarrow> formatMatch q @ [RouteRecord u p rx cs n parent m rd be])"

definition getFullPath :: "env \<Rightarrow> location \<Rightarrow> string" where
  "getFullPath e l =
     (if truthy (loc_path l) then the (loc_path l) else ''/'')
       @ stringifyQuery e (case loc_query l of None \<Rightarrow> [] | Some q \<Rightarrow> q)
       @ (case loc_hash l of None \<Rightarrow> [] | Some h \<Rightarrow> h)"

definition createRoute :: "env \<Rightarrow> route_record option \<Rightarrow> location \<Rightarrow> location option \<Rightarrow> route" where
  "createRoute e rcd l redirectedFrom =
     \<lparr> route_ref = 0,
       route_name = (if truthy (loc_name l) then loc_name l
                     else case rcd of None \<Rightarrow> None | Some r \<Rightarrow> rec_name r),
       route_path = (if truthy (loc_path l) then the (loc_path l) else ''/''),
       route_hash = (case loc_hash l of None \<Rightarrow> [] | Some h \<Rightarrow> h),
       route_query = (case loc_query l of None \<Rightarrow> [] | Some q \<Rightarrow> q),
       route_params = (case loc_params l of None \<Rightarrow> [] | Some ps \<Rightarrow> ps),
       route_fullPath = getFullPath e l,
       route_matched = (case rcd of None \<Rightarrow> [] | Some r \<Rightarrow> formatMatch r),
       route_redirectedFrom = map_option (getFullPath e) redirectedFrom \<rparr>"

section \<open>The matcher (create-matcher.js)\<close>

text \<open>
  Modelled from the spec: util/location.js (normalizeLocation) is not among the sources.
  The matcher re-enters \<open>match\<close> with objects marked \<open>_normalized: true\<close>, which
  the specification calls already-normalized locations: these are returned as they are.
  Every other input (a string, a raw object) goes through the parser, a parameter.
\<close>

definition normalizeLocation :: "env \<Rightarrow> raw_location \<Rightarrow> route option \<Rightarrow> location" where
  "normalizeLocation e raw current =
     (case raw of
        RawLocation l \<Rightarrow> if loc_normalized l then l else parseLocation e raw current
      | RawString s \<Rightarrow> parseLocation e raw current)"

text \<open>The decimal form of a number used as a property name.\<close>

fun nat_to_string :: "nat \<Rightarrow> string" where
  "nat_to_string n =
     (if n < 10 then [char_of (48 + n)]
      else nat_to_string (n div 10) @ [char_of (48 + n mod 10)])"

declare nat_to_string.simps [simp del]

text \<open>\<open>key.name || 'pathMatch'\<close>: the empty name and the index \<open>0\<close> are falsy.\<close>

definition key_prop :: "param_key \<Rightarrow> string" where
  "key_prop k =
     (case key_name k of
        KeyStr s \<Rightarrow> if s = [] then ''pathMatch'' else s
      | KeyNum n \<Rightarrow> if n = 0 then ''pathMatch'' else nat_to_string n)"

text \<open>
  The loop of matchRoute over the captured groups \<open>m[1], m[2], ...\<close>; \<open>j\<close> is
  \<open>i - 1\<close>. decodeURIComponent is applied before the key is looked at.
\<close>

fun matchRoute_loop ::
  "env \<Rightarrow> param_key list \<Rightarrow> string option list \<Rightarrow> nat \<Rightarrow> params \<Rightarrow> js_error + params"
where
  "matchRoute_loop e ks [] j ps = Inr ps"
| "matchRoute_loop e ks (g # gs) j ps =
     (case (case g of
              None \<Rightarrow> Inr None
            | Some s \<Rightarrow> (case decodeURIComponent e s of
                           None \<Rightarrow> Inl URIError
                         | Some d \<Rightarrow> Inr (Some d))) of
        Inl err \<Rightarrow> Inl err
      | Inr val \<Rightarrow>
          (case js_index ks j of
             None \<Rightarrow> matchRoute_loop e ks gs (Suc j) ps
           | Some k \<Rightarrow> matchRoute_loop e ks gs (Suc j) (obj_set (key_prop k) val ps)))"

text \<open>
  matchRoute returns whether the path matches, together with the params object after
  the call (the caller's object is filled in place).
\<close>

definition matchRoute ::
  "env \<Rightarrow> route_regex \<Rightarrow> string \<Rightarrow> params option \<Rightarrow> js_error + (bool \<times> params option)"
where
  "matchRoute e regex path ps =
     (case regex_match regex path of
        None \<Rightarrow> Inr (False, ps)
      | Some m \<Rightarrow>
          (case ps of
             None \<Rightarrow> Inr (True, None)
           | Some obj \<Rightarrow>
               (case matchRoute_loop e (keys regex) m 0 obj of
                  Inl err \<Rightarrow> Inl err
                | Inr obj' \<Rightarrow> Inr (True, Some obj'))))"

text \<open>
  The \<open>for\<close> loop of \<open>match\<close> over pathList: the first record whose pattern matches.
  Reading \<open>record.regex\<close> of a path without a record throws TypeError.
\<close>

fun match_scan ::
  "env \<Rightarrow> route_table \<Rightarrow> string list \<Rightarrow> string \<Rightarrow> params option
     \<Rightarrow> js_error + (route_record \<times> params option) option"
where
  "match_scan e tbl [] path ps = Inr None"
| "match_scan e tbl (p # rest) path ps =
     (case pathMap tbl p of
        None \<Rightarrow> Inl TypeError
      | Some rcd \<Rightarrow>
          (case matchRoute e (rec_regex rcd) path ps of
             Inl err \<Rightarrow> Inl err
           | Inr (True, ps') \<Rightarrow> Inr (Some (rcd, ps'))
           | Inr (False, ps') \<Rightarrow> match_scan e tbl rest path ps'))"

text \<open>
  The specification's wording for the lookup by path: the record of the first entry of
  pathList whose pattern matches the path.
\<close>

definition pattern_matches :: "route_table \<Rightarrow> string \<Rightarrow> string \<Rightarrow> bool" where
  "pattern_matches tbl path p =
     (case pathMap tbl p of
        None \<Rightarrow> False
      | Some rcd \<Rightarrow> regex_match (rec_regex rcd) path \<noteq> None)"

definition first_match :: "route_table \<Rightarrow> string \<Rightarrow> route_record option" where
  "first_match tbl path =
     (case find (pattern_matches tbl path) (pathList tbl) of
        None \<Rightarrow> None
      | Some p \<Rightarrow> pathMap tbl p)"

text \<open>
  Lines 64 to 81 of create-matcher.js: the required parameter names of the record, the
  merge of the current route's params, and the filled path.
\<close>

definition paramNames :: "route_record \<Rightarrow> key_name list" where
  "paramNames rcd = map key_name (filter (\<lambda>k. \<not> key_optional k) (keys (rec_regex rcd)))"

definition inherit_params :: "key_name list \<Rightarrow> params \<Rightarrow> params \<Rightarrow> params" where
  "inherit_params names current_params location_params =
     fold (\<lambda>(k, v) ps. if \<not> js_in k ps \<and> KeyStr k \<in> set names then obj_set k v ps else ps)
       current_params location_params"

definition named_location :: "env \<Rightarrow> route_record \<Rightarrow> location \<Rightarrow> route option \<Rightarrow> location" where
  "named_location e rcd l currentRoute =
     (let ps0 = (case loc_params l of None \<Rightarrow> [] | Some ps \<Rightarrow> ps);
          ps1 = (case currentRoute of
                   None \<Rightarrow> ps0
                 | Some c \<Rightarrow> inherit_params (paramNames rcd) (route_params c) ps0)
      in l \<lparr> loc_params := Some ps1,
             loc_path := Some (fillParams e (rec_path rcd) (Some ps1)) \<rparr>)"

definition resolveRecordPath :: "env \<Rightarrow> string \<Rightarrow> route_record \<Rightarrow> string" where
  "resolveRecordPath e path rcd =
     resolvePath e path (case rec_parent rcd of None \<Rightarrow> ''/'' | Some p \<Rightarrow> rec_path p) True"

fun redirect_truthy :: "redirect_option option \<Rightarrow> bool" where
  "redirect_truthy None = False"
| "redirect_truthy (Some (RedirStr s)) = (s \<noteq> [])"
| "redirect_truthy (Some _) = True"

text \<open>
  What \<open>match\<close> does before it calls \<open>_createRoute\<close>: the result is the
  triple of arguments of that call (record, location, redirectedFrom), or the exception
  thrown on the way. A failed lookup calls \<open>_createRoute(null, location)\<close>, without
  the third argument.
\<close>

definition match_lookup ::
  "env \<Rightarrow> route_table \<Rightarrow> location \<Rightarrow> route option \<Rightarrow> location option
     \<Rightarrow> js_error + (route_record option \<times> location \<times> location option)"
where
  "match_lookup e tbl l currentRoute redirectedFrom =
     (if truthy (loc_name l)
      then (case nameMap tbl (the (loc_name l)) of
              None \<Rightarrow> Inr (None, l, None)
            | Some rcd \<Rightarrow> Inr (Some rcd, named_location e rcd l currentRoute, redirectedFrom))
      else if truthy (loc_path l)
      then (case match_scan e tbl (pathList tbl) (the (loc_path l)) (Some []) of
              Inl err \<Rightarrow> Inl err
            | Inr (Some (rcd, ps)) \<Rightarrow> Inr (Some rcd, l \<lparr> loc_params := ps \<rparr>, redirectedFrom)
            | Inr None \<Rightarrow> Inr (None, l \<lparr> loc_params := Some [] \<rparr>, None))
      else Inr (None, l, None))"

text \<open>
  What \<open>redirect\<close> does before it re-enters the matcher: the location it matches
  next, or nothing for an invalid redirect option (which ends in
  \<open>_createRoute(null, location)\<close>).
\<close>

definition redirect_target :: "env \<Rightarrow> route_record \<Rightarrow> location \<Rightarrow> raw_location option" where
  "redirect_target e rcd l =
     (let redirect0 =
            (case rec_redirect rcd of
               Some (RedirFn f) \<Rightarrow> redirect_fn e f (createRoute e (Some rcd) l None)
             | Some (RedirStr s) \<Rightarrow> RvStr s
             | Some (RedirObj ob) \<Rightarrow> RvObj ob
             | None \<Rightarrow> RvOther);
          redirect1 =
            (case redirect0 of
               RvStr s \<Rightarrow>
                 RvObj \<lparr> ro_name = None, ro_path = Some s, ro_query = None, ro_hash = None,
                         ro_params = None \<rparr>
             | other \<Rightarrow> other)
      in case redirect1 of
           RvObj re \<Rightarrow>
             (let query = (case ro_query re of None \<Rightarrow> loc_query l | Some q \<Rightarrow> Some q);
                  hash = (case ro_hash re of None \<Rightarrow> loc_hash l | Some h \<Rightarrow> Some h);
                  ps = (case ro_params re of None \<Rightarrow> loc_params l | Some p \<Rightarrow> Some p)
              in if truthy (ro_name re)
                 then Some (RawLocation \<lparr> loc_normalized = True, loc_name = ro_name re,
                              loc_path = None, loc_params = ps, loc_query = query,
                              loc_hash = hash \<rparr>)
                 else if truthy (ro_path re)
                 then (let rawPath = resolveRecordPath e (the (ro_path re)) rcd;
                           resolvedPath = fillParams e rawPath ps
                       in Some (RawLocation \<lparr> loc_normalized = True, loc_name = None,
                                  loc_path = Some resolvedPath, loc_params = None,
                                  loc_query = query, loc_hash = hash \<rparr>))
                 else None)
         | other \<Rightarrow> None)"



text \<open>
  \<open>match\<close>, \<open>_createRoute\<close>, \<open>redirect\<close> and \<open>alias\<close> call each other without
  a cycle guard. The four functions are one recursion over the number of stack frames
  left: every call takes one frame, and a call with none left throws RangeError (the
  stack limit). A call is described by the function called and its arguments.
\<close>

datatype matcher_call =
    Match raw_location "route option" "location option"
  | CreateRoute "route_record option" location "location option"
  | Redirect route_record location
  | Alias route_record location string

primrec matcher_run :: "env \<Rightarrow> route_table \<Rightarrow> nat \<Rightarrow> matcher_call \<Rightarrow> js_error + route" where
  "matcher_run e tbl 0 c = Inl RangeError"
| "matcher_run e tbl (Suc n) c =
     (case c of
        Match raw currentRoute redirectedFrom \<Rightarrow>
          (case match_lookup e tbl (normalizeLocation e raw currentRoute) currentRoute
                  redirectedFrom of
             Inl err \<Rightarrow> Inl err
           | Inr (rcd, l, rf) \<Rightarrow> matcher_run e tbl n (CreateRoute rcd l rf))
      | CreateRoute rcd l redirectedFrom \<Rightarrow>
          (case rcd of
             None \<Rightarrow> Inr (createRoute e None l redirectedFrom)
           | Some r \<Rightarrow>
               if redirect_truthy (rec_redirect r)
               then matcher_run e tbl n
                      (Redirect r (case redirectedFrom of None \<Rightarrow> l | Some rf \<Rightarrow> rf))
               else if truthy (rec_matchAs r)
               then matcher_run e tbl n (Alias r l (the (rec_matchAs r)))
               else Inr (createRoute e rcd l redirectedFrom))
      | Redirect rcd l \<Rightarrow>
          (case redirect_target e rcd l of
             Some raw \<Rightarrow> matcher_run e tbl n (Match raw None (Some l))
           | None \<Rightarrow> matcher_run e tbl n (CreateRoute None l None))
      | Alias rcd l matchAs \<Rightarrow>
          (case matcher_run e tbl n
                  (Match (RawLocation \<lparr> loc_normalized = True, loc_name = None,
                            loc_path = Some (fillParams e matchAs (loc_params l)),
                            loc_params = None, loc_query = None, loc_hash = None \<rparr>)
                     None None) of
             Inl err \<Rightarrow> Inl err
           | Inr aliasedMatch \<Rightarrow>
               matcher_run e tbl n
                 (CreateRoute
                    (js_index (route_matched aliasedMatch)
                       (length (route_matched aliasedMatch) - 1))
                    (l \<lparr> loc_params := Some (route_params aliasedMatch) \<rparr>) None)))"

definition match ::
  "env \<Rightarrow> route_table \<Rightarrow> nat \<Rightarrow> raw_location \<Rightarrow> route option \<Rightarrow> location option
     \<Rightarrow> js_error + route"
where
  "match e tbl n raw currentRoute redirectedFrom =
     matcher_run e tbl n (Match raw currentRoute redirectedFrom)"

definition createRoute_m ::
  "env \<Rightarrow> route_table \<Rightarrow> nat \<Rightarrow> route_record option \<Rightarrow> location \<Rightarrow> location option
     \<Rightarrow> js_error + route"
where
  "createRoute_m e tbl n rcd l redirectedFrom =
     matcher_run e tbl n (CreateRoute rcd l redirectedFrom)"

definition redirect ::
  "env \<Rightarrow> route_table \<Rightarrow> nat \<Rightarrow> route_record \<Rightarrow> location \<Rightarrow> js_error + route"
where
  "redirect e tbl n rcd l = matcher_run e tbl n (Redirect rcd l)"

definition alias_m ::
  "env \<Rightarrow> route_table \<Rightarrow> nat \<Rightarrow> route_record \<Rightarrow> location \<Rightarrow> string \<Rightarrow> js_error + route"
where
  "alias_m e tbl n rcd l matchAs = matcher_run e tbl n (Alias rcd l matchAs)"


section \<open>A concrete environment for the examples\<close>

text \<open>
  The examples below run the model with the following stand-ins for the collaborators.
  The pattern compiler covers the patterns the examples use: static segments,
  \<open>:name\<close>, a final optional \<open>:name?\<close>, and the wildcard pattern \<open>*\<close>; on
  lower-case paths it matches as path-to-regexp does with the default options (one
  trailing slash is allowed). The examples contain no percent escapes, on which
  decodeURIComponent is the identity.
\<close>

fun split_slash :: "string \<Rightarrow> string list" where
  "split_slash [] = [[]]"
| "split_slash (c # cs) =
     (if c = CHR ''/'' then [] # split_slash cs
      else case split_slash cs of
             w # ws \<Rightarrow> (c # w) # ws
           | [] \<Rightarrow> [[c]])"

fun join_slash :: "string list \<Rightarrow> string" where
  "join_slash [] = []"
| "join_slash [w] = w"
| "join_slash (w # ws) = w @ ''/'' @ join_slash ws"

definition seg_is_param :: "string \<Rightarrow> bool" where
  "seg_is_param w = (js_index w 0 = Some (CHR '':''))"

definition seg_optional :: "string \<Rightarrow> bool" where
  "seg_optional w = (w \<noteq> [] \<and> last w = CHR ''?'')"

definition seg_name :: "string \<Rightarrow> string" where
  "seg_name w = (if seg_optional w then butlast (tl w) else tl w)"

fun seg_match :: "string list \<Rightarrow> string list \<Rightarrow> string option list option" where
  "seg_match [] [] = Some []"
| "seg_match [] (s # ss) = None"
| "seg_match (p # ps) [] =
     (if seg_is_param p \<and> seg_optional p \<and> ps = [] then Some [None] else None)"
| "seg_match (p # ps) (s # ss) =
     (if seg_is_param p
      then (if s = [] then None else map_option ((#) (Some s)) (seg_match ps ss))
      else if p = s then seg_match ps ss else None)"

definition demo_Regexp :: "string \<Rightarrow> pr_options \<Rightarrow> route_regex" where
  "demo_Regexp path opts =
     (if path = ''*''
      then \<lparr> regex_match = (\<lambda>p. Some [Some p]),
             keys = [\<lparr> key_name = KeyNum 0, key_optional = False \<rparr>] \<rparr>
      else \<lparr> regex_match =
               (\<lambda>p. seg_match (split_slash path) (split_slash (strip_trailing_slash p))),
             keys = map (\<lambda>w. \<lparr> key_name = KeyStr (seg_name w), key_optional = seg_optional w \<rparr>)
                      (filter seg_is_param (split_slash path)) \<rparr>)"

fun demo_cleanPath :: "string \<Rightarrow> string" where
  "demo_cleanPath (a # b # cs) =
     (if a = CHR ''/'' \<and> b = CHR ''/'' then CHR ''/'' # demo_cleanPath cs
      else a # demo_cleanPath (b # cs))"
| "demo_cleanPath cs = cs"

fun fill_segs :: "string list \<Rightarrow> params \<Rightarrow> string list option" where
  "fill_segs [] ps = Some []"
| "fill_segs (w # ws) ps =
     (if seg_is_param w
      then (case map_of ps (seg_name w) of
              Some (Some v) \<Rightarrow> map_option ((#) v) (fill_segs ws ps)
            | _ \<Rightarrow> if seg_optional w then fill_segs ws ps else None)
      else map_option ((#) w) (fill_segs ws ps))"

definition demo_fillParams :: "string \<Rightarrow> params option \<Rightarrow> string" where
  "demo_fillParams path ps =
     (case fill_segs (split_slash path) (case ps of None \<Rightarrow> [] | Some obj \<Rightarrow> obj) of
        None \<Rightarrow> []
      | Some ws \<Rightarrow> join_slash ws)"

fun demo_stringifyQuery :: "query \<Rightarrow> string" where
  "demo_stringifyQuery [] = []"
| "demo_stringifyQuery ((k, v) # q) =
     (if q = [] then ''?'' @ k @ ''='' @ v
      else demo_stringifyQuery [(k, v)] @ ''&'' @ tl (demo_stringifyQuery q))"

text \<open>A full path without query and hash denotes the location with that path.\<close>

definition demo_parseLocation :: "raw_location \<Rightarrow> route option \<Rightarrow> location" where
  "demo_parseLocation raw current =
     (case raw of
        RawString s \<Rightarrow>
          \<lparr> loc_normalized = True, loc_name = None,
            loc_path = Some (takeWhile (\<lambda>c. c \<noteq> CHR ''?'' \<and> c \<noteq> CHR ''#'') s),
            loc_params = None, loc_query = None, loc_hash = None \<rparr>
      | RawLocation l \<Rightarrow> l \<lparr> loc_normalized := True \<rparr>)"

definition demo_env :: env where
  "demo_env =
     \<lparr> production = False,
       Regexp = demo_Regexp,
       cleanPath = demo_cleanPath,
       resolvePath = (\<lambda>relative base append. relative),
       fillParams = demo_fillParams,
       decodeURIComponent = Some,
       stringifyQuery = demo_stringifyQuery,
       parseLocation = demo_parseLocation,
       redirect_fn = (\<lambda>f r. RvOther) \<rparr>"

definition plain_route :: "string \<Rightarrow> string option \<Rightarrow> route_config list \<Rightarrow> string list \<Rightarrow> route_config" where
  "plain_route path name children aliases =
     RouteConfig path name None None None None children aliases None None"

section \<open>Values, guards and callbacks of the navigation controller\<close>

text \<open>
  The values a guard can pass to its continuation or throw: \<open>JObject l r\<close> is a plain
  object with the location fields \<open>l\<close> and the flag \<open>replace\<close>; \<open>JError\<close> is an
  Error object; \<open>JNavigationDuplicated\<close> is the error raised for a navigation to the
  current location.
\<close>

datatype jsval =
    JUndefined
  | JNull
  | JBool bool
  | JString string
  | JNumber int
  | JObject location bool
  | JFunction nat
  | JError string
  | JNavigationDuplicated route

text \<open>
  Modelled from the spec: util/warn.js (isError, isExtendedError) and history/errors.js
  (NavigationDuplicated) are not among the sources. The specification distinguishes error
  values from the other continuation arguments, and among the error values the
  DuplicateNavigation condition; NavigationDuplicated is an error value.
\<close>

fun isError :: "jsval \<Rightarrow> bool" where
  "isError (JError m) = True"
| "isError (JNavigationDuplicated r) = True"
| "isError v = False"

fun isNavigationDuplicated :: "jsval \<Rightarrow> bool" where
  "isNavigationDuplicated (JNavigationDuplicated r) = True"
| "isNavigationDuplicated v = False"

fun js_truthy :: "jsval \<Rightarrow> bool" where
  "js_truthy JUndefined = False"
| "js_truthy JNull = False"
| "js_truthy (JBool b) = b"
| "js_truthy (JString s) = (s \<noteq> [])"
| "js_truthy (JNumber n) = (n \<noteq> 0)"
| "js_truthy v = True"

definition error_value :: "js_error \<Rightarrow> jsval" where
  "error_value err =
     (case err of
        RangeError \<Rightarrow> JError ''RangeError''
      | TypeError \<Rightarrow> JError ''TypeError''
      | URIError \<Rightarrow> JError ''URIError'')"

text \<open>
  What a guard of the application does when it is called with the target, the current
  route and its continuation: the values with which it calls the continuation before it
  returns, in order, and the value it then throws, if any. The continuation has no
  protection against repeated calls, so every call takes effect; an exception thrown
  below a call of the continuation passes through the guard. Calls that a guard makes
  after it has returned belong to a later turn of the event loop and are not part of
  the run of the guard.
\<close>

record guard_behaviour =
  gb_calls :: "jsval list"
  gb_throws :: "jsval option"

text \<open>
  The entries of a guard queue: a function of the application; an in-component enter
  guard wrapped by bindEnterGuard for a record and a view slot; the step returned by
  resolveAsyncComponents for a chain of records.
\<close>

datatype guard =
    UserGuard nat
  | EnterGuard nat nat string
  | ResolveAsync "route_record list"

text \<open>
  The callbacks handed to a navigation: a function of the application, the two
  capabilities of a Promise, or the wrapper of a URL backend that updates the URL (by
  replace or by push) and then calls the wrapped callback, if any.
\<close>

datatype callback =
    UserCallback nat
  | PromiseResolve nat
  | PromiseReject nat
  | UrlUpdate bool "callback option"

text \<open>The observable effects, in the order in which they happen.\<close>

datatype event =
    EnsureURL "bool option"
  | UrlChanged bool route
  | GuardInvoked guard
  | FactoryInvoked nat
  | CallbackRoute callback route
  | CallbackValue callback jsval
  | ErrorListener nat jsval
  | ReadyListener nat route
  | ReadyErrorListener nat jsval
  | RouteListener nat route
  | AfterHook nat route route
  | ConsoleError jsval
  | NextTick "(nat \<times> nat \<times> string) list"
  | NavigationRequested bool raw_location

text \<open>
  The state of a router and its history object. \<open>comp_store\<close> holds the view
  definitions written into \<open>record.components\<close> after the table was built,
  \<open>instances\<close> the view handles the view layer has registered, both keyed by record
  and slot. \<open>postEnterCbs\<close> is the array of the same name of the running transition.
  \<open>url_location\<close> is what getCurrentLocation of the URL backend returns.
\<close>

record router =
  matcher_table :: route_table
  beforeHooks :: "nat option list"
  resolveHooks :: "nat option list"
  afterHooks :: "nat option list"
  app_root :: bool
  current :: route
  pending :: "route option"
  ready :: bool
  readyCbs :: "nat list"
  readyErrorCbs :: "nat list"
  errorCbs :: "nat list"
  listen_cb :: "nat option"
  comp_store :: "nat \<times> string \<rightharpoonup> view_def"
  instances :: "nat \<times> string \<rightharpoonup> nat"
  postEnterCbs :: "(nat \<times> nat \<times> string) list"
  url_location :: string
  next_ref :: nat
  next_promise :: nat
  trace :: "event list"

text \<open>
  A computation either returns or throws; in both cases the effects made so far stay.
\<close>

datatype outcome = Done router | Raised jsval router

text \<open>
  What a lazy view factory does when it is called with \<open>resolve\<close> and \<open>reject\<close>:
  the calls it makes before it returns, whether it then throws, and whether it returns a
  thenable (or an object whose \<open>component\<close> is one), which settles later.
\<close>

datatype resolved_def = ESModule view_def | PlainDef view_def

datatype settle = Resolve resolved_def | Reject jsval

datatype factory_return = ReturnsNothing | ReturnsThenable | ReturnsComponentThenable

record factory_behaviour =
  fb_calls :: "settle list"
  fb_throws :: "jsval option"
  fb_returns :: factory_return

text \<open>
  The application and the host: the behaviour of the guards and factories it supplies,
  the source text of its functions (what the conversion of a function to a string
  yields), isSameRoute of util/route.js (not among the sources), whether \<open>Promise\<close> is defined,
  and the stack frames available to the matcher.
\<close>

record app =
  guard_fn :: "nat \<Rightarrow> route \<Rightarrow> route \<Rightarrow> guard_behaviour"
  factory_fn :: "nat \<Rightarrow> factory_behaviour"
  function_text :: "nat \<Rightarrow> string"
  isSameRoute :: "route \<Rightarrow> route \<Rightarrow> bool"
  promise_defined :: bool
  stack_limit :: nat

text \<open>
  The methods of History that its subclasses implement (\<open>+push\<close>, \<open>+replace\<close>): a
  parameter of the controller.
\<close>

record backend =
  be_push :: "raw_location \<Rightarrow> callback option \<Rightarrow> callback option \<Rightarrow> router \<Rightarrow> outcome"
  be_replace :: "raw_location \<Rightarrow> callback option \<Rightarrow> callback option \<Rightarrow> router \<Rightarrow> outcome"

definition emit :: "event \<Rightarrow> router \<Rightarrow> router" where
  "emit ev st = st \<lparr> trace := trace st @ [ev] \<rparr>"

definition ensureURL :: "bool option \<Rightarrow> router \<Rightarrow> router" where
  "ensureURL p st = emit (EnsureURL p) st"

fun call_route :: "callback \<Rightarrow> route \<Rightarrow> router \<Rightarrow> router" where
  "call_route (UrlUpdate rep k) r st =
     (case k of
        None \<Rightarrow> emit (UrlChanged rep r) st
      | Some c \<Rightarrow> call_route c r (emit (UrlChanged rep r) st))"
| "call_route c r st = emit (CallbackRoute c r) st"

definition call_value :: "callback \<Rightarrow> jsval \<Rightarrow> router \<Rightarrow> router" where
  "call_value c v st = emit (CallbackValue c v) st"

section \<open>The queue runner (util/async.js)\<close>

text \<open>
  \<open>runQueue(queue, fn, cb)\<close>: \<open>step(index)\<close> is the run of the queue from
  \<open>index\<close> on; \<open>fn\<close> receives the entry and the continuation \<open>() => step(index + 1)\<close>.
\<close>

fun runQueue :: "'g option list \<Rightarrow> ('g \<Rightarrow> ('s \<Rightarrow> 'r) \<Rightarrow> 's \<Rightarrow> 'r) \<Rightarrow> ('s \<Rightarrow> 'r) \<Rightarrow> 's \<Rightarrow> 'r" where
  "runQueue [] fn cb st = cb st"
| "runQueue (None # queue) fn cb st = runQueue queue fn cb st"
| "runQueue (Some g # queue) fn cb st = fn g (runQueue queue fn cb) st"

section \<open>Lazy view resolution (util/resolve-components.js)\<close>

text \<open>
  The variables of one call of the step returned by resolveAsyncComponents
  (\<open>hasAsync\<close>, \<open>pending\<close>, \<open>error\<close>), the \<open>called\<close> flags of the
  \<open>once\<close> wrappers of each factory, and, for reference, the arguments with which the
  continuation \<open>next\<close> has been called so far.
\<close>

record resolver =
  hasAsync :: bool
  res_pending :: int
  res_error :: "jsval option"
  resolve_called :: "(nat \<times> string) list"
  reject_called :: "(nat \<times> string) list"
  fired :: "jsval list"

definition initial_resolver :: resolver where
  "initial_resolver =
     \<lparr> hasAsync = False, res_pending = 0, res_error = None, resolve_called = [],
       reject_called = [], fired = [] \<rparr>"

text \<open>
  The \<open>resolve\<close> capability of the factory of record \<open>uid\<close> and slot \<open>key\<close>,
  wrapped by \<open>once\<close>. (The cache \<open>def.resolved\<close> is not read by the sources and is
  left out.)
\<close>

definition resolve_cb ::
  "(jsval \<Rightarrow> router \<Rightarrow> outcome) \<Rightarrow> nat \<times> string \<Rightarrow> resolved_def \<Rightarrow> resolver \<times> router
     \<Rightarrow> resolver \<times> outcome"
where
  "resolve_cb nxt slot resolvedDef s =
     (let rs = fst s; st = snd s
      in if slot \<in> set (resolve_called rs) then (rs, Done st)
         else
           (let rs1 = rs \<lparr> resolve_called := slot # resolve_called rs \<rparr>;
                d = (case resolvedDef of ESModule m \<Rightarrow> m | PlainDef p \<Rightarrow> p);
                st1 = st \<lparr> comp_store := (comp_store st)(slot \<mapsto> d) \<rparr>;
                rs2 = rs1 \<lparr> res_pending := res_pending rs1 - 1 \<rparr>
            in if res_pending rs2 \<le> 0
               then (rs2 \<lparr> fired := fired rs2 @ [JUndefined] \<rparr>, nxt JUndefined st1)
               else (rs2, Done st1)))"

text \<open>
  The conversion to a string in the template literal
  \<^verbatim>\<open>`Failed to resolve async component ${key}: ${reason}`\<close>. The text of an Error object is
  left open: \<open>reject\<close> passes an error value on as it is and uses the message only for
  a reason that is not one.
\<close>

fun js_text :: "(nat \<Rightarrow> string) \<Rightarrow> jsval \<Rightarrow> string" where
  "js_text ft JUndefined = ''undefined''"
| "js_text ft JNull = ''null''"
| "js_text ft (JBool b) = (if b then ''true'' else ''false'')"
| "js_text ft (JString s) = s"
| "js_text ft (JNumber n) =
     (if n < 0 then ''-'' @ nat_to_string (nat (- n)) else nat_to_string (nat n))"
| "js_text ft (JObject l r) = ''[object Object]''"
| "js_text ft (JFunction f) = ft f"

text \<open>The \<open>reject\<close> capability, wrapped by \<open>once\<close>.\<close>

definition reject_error :: "app \<Rightarrow> string \<Rightarrow> jsval \<Rightarrow> jsval" where
  "reject_error a key reason =
     (if isError reason then reason
      else JError (''Failed to resolve async component '' @ key @ '': ''
                   @ js_text (function_text a) reason))"

definition reject_cb ::
  "app \<Rightarrow> (jsval \<Rightarrow> router \<Rightarrow> outcome) \<Rightarrow> nat \<times> string \<Rightarrow> jsval \<Rightarrow> resolver \<times> router
     \<Rightarrow> resolver \<times> outcome"
where
  "reject_cb a nxt slot reason s =
     (let rs = fst s; st = snd s
      in if slot \<in> set (reject_called rs) then (rs, Done st)
         else
           (let rs1 = rs \<lparr> reject_called := slot # reject_called rs \<rparr>
            in if res_error rs1 = None
               then (rs1 \<lparr> res_error := Some (reject_error a (snd slot) reason),
                          fired := fired rs1 @ [reject_error a (snd slot) reason] \<rparr>,
                     nxt (reject_error a (snd slot) reason) st)
               else (rs1, Done st)))"

definition settle_cb ::
  "app \<Rightarrow> (jsval \<Rightarrow> router \<Rightarrow> outcome) \<Rightarrow> nat \<times> string \<Rightarrow> settle \<Rightarrow> resolver \<times> router
     \<Rightarrow> resolver \<times> outcome"
where
  "settle_cb a nxt slot c s =
     (case c of
        Resolve d \<Rightarrow> resolve_cb nxt slot d s
      | Reject reason \<Rightarrow> reject_cb a nxt slot reason s)"

text \<open>
  The calls a factory makes while it runs; an exception thrown below a call ends the
  factory.
\<close>

fun run_settles ::
  "app \<Rightarrow> (jsval \<Rightarrow> router \<Rightarrow> outcome) \<Rightarrow> nat \<times> string \<Rightarrow> settle list \<Rightarrow> resolver \<times> router
     \<Rightarrow> resolver \<times> outcome"
where
  "run_settles a nxt slot [] s = (fst s, Done (snd s))"
| "run_settles a nxt slot (c # cs) s =
     (case settle_cb a nxt slot c s of
        (rs, Done st) \<Rightarrow> run_settles a nxt slot cs (rs, st)
      | (rs, Raised x st) \<Rightarrow> (rs, Raised x st))"

text \<open>
  \<open>try { res = def(resolve, reject) } catch (e) { reject(e) }\<close>; a returned thenable
  only registers the two capabilities.
\<close>

definition invoke_factory ::
  "app \<Rightarrow> (jsval \<Rightarrow> router \<Rightarrow> outcome) \<Rightarrow> nat \<times> string \<Rightarrow> nat \<Rightarrow> resolver \<times> router
     \<Rightarrow> resolver \<times> outcome"
where
  "invoke_factory a nxt slot f s =
     (case run_settles a nxt slot (fb_calls (factory_fn a f))
             (fst s, emit (FactoryInvoked f) (snd s)) of
        (rs, Raised x st) \<Rightarrow> reject_cb a nxt slot x (rs, st)
      | (rs, Done st) \<Rightarrow>
          (case fb_throws (factory_fn a f) of
             Some x \<Rightarrow> reject_cb a nxt slot x (rs, st)
           | None \<Rightarrow> (rs, Done st)))"

text \<open>
  The view definition in a slot of a record, as the record object holds it now, and the
  slots of a chain in the order of flatMapComponents.
\<close>

definition slot_def :: "router \<Rightarrow> route_record \<Rightarrow> string \<Rightarrow> view_def option" where
  "slot_def st m key =
     (case comp_store st (rec_uid m, key) of
        Some d \<Rightarrow> Some d
      | None \<Rightarrow> (case map_of (rec_components m) key of None \<Rightarrow> None | Some d \<Rightarrow> d))"

definition component_slots :: "route_record list \<Rightarrow> (route_record \<times> string) list" where
  "component_slots matched = concat (map (\<lambda>m. map (\<lambda>kd. (m, fst kd)) (rec_components m)) matched)"

text \<open>Whether a slot holds a factory in the given state.\<close>

definition is_factory_slot :: "router \<Rightarrow> route_record \<times> string \<Rightarrow> bool" where
  "is_factory_slot st s =
     (case slot_def st (fst s) (snd s) of Some (ViewFactory f) \<Rightarrow> True | other \<Rightarrow> False)"

text \<open>
  The traversal of resolveAsyncComponents: a slot holding a factory (a function without
  \<open>cid\<close>) sets \<open>hasAsync\<close>, increments \<open>pending\<close> and calls the factory.
\<close>

fun discover ::
  "app \<Rightarrow> (jsval \<Rightarrow> router \<Rightarrow> outcome) \<Rightarrow> (route_record \<times> string) list \<Rightarrow> resolver \<times> router
     \<Rightarrow> resolver \<times> outcome"
where
  "discover a nxt [] s = (fst s, Done (snd s))"
| "discover a nxt ((m, key) # rest) s =
     (case slot_def (snd s) m key of
        Some (ViewFactory f) \<Rightarrow>
          (case invoke_factory a nxt (rec_uid m, key) f
                  ((fst s) \<lparr> hasAsync := True, res_pending := res_pending (fst s) + 1 \<rparr>, snd s) of
             (rs, Done st) \<Rightarrow> discover a nxt rest (rs, st)
           | (rs, Raised x st) \<Rightarrow> (rs, Raised x st))
      | other \<Rightarrow> discover a nxt rest s)"

definition resolveAsyncComponents ::
  "app \<Rightarrow> route_record list \<Rightarrow> (jsval \<Rightarrow> router \<Rightarrow> outcome) \<Rightarrow> router \<Rightarrow> resolver \<times> outcome"
where
  "resolveAsyncComponents a matched nxt st =
     (case discover a nxt (component_slots matched) (initial_resolver, st) of
        (rs, Raised x st') \<Rightarrow> (rs, Raised x st')
      | (rs, Done st') \<Rightarrow>
          if \<not> hasAsync rs
          then (rs \<lparr> fired := fired rs @ [JUndefined] \<rparr>, nxt JUndefined st')
          else (rs, Done st'))"

section \<open>Guard extraction (history/base.js)\<close>

datatype hook_name = BeforeRouteEnter | BeforeRouteUpdate | BeforeRouteLeave

text \<open>
  extractGuard reads \<open>def.options[key]\<close>, after \<open>_Vue.extend\<close> for a definition
  that is not a function. A factory is a function without \<open>options\<close>: the read throws
  TypeError. An absent definition has no hooks.
\<close>

definition hook_of :: "component_options \<Rightarrow> hook_name \<Rightarrow> hook_value option" where
  "hook_of opts name =
     (case name of
        BeforeRouteEnter \<Rightarrow> beforeRouteEnter opts
      | BeforeRouteUpdate \<Rightarrow> beforeRouteUpdate opts
      | BeforeRouteLeave \<Rightarrow> beforeRouteLeave opts)"

fun extractGuard :: "view_def option \<Rightarrow> hook_name \<Rightarrow> js_error + hook_value option" where
  "extractGuard None name = Inr None"
| "extractGuard (Some (ViewObject opts)) name = Inr (hook_of opts name)"
| "extractGuard (Some (ViewCtor cid opts)) name = Inr (hook_of opts name)"
| "extractGuard (Some (ViewFactory f)) name = Inl TypeError"

text \<open>
  The callback of flatMapComponents in extractGuards: nothing (\<open>undefined\<close>) when the
  definition has no such hook, the bound guard, or the array of bound guards.
\<close>

fun bound_guards ::
  "(nat \<Rightarrow> guard option) \<Rightarrow> hook_value option \<Rightarrow> guard option list"
where
  "bound_guards bind None = [None]"
| "bound_guards bind (Some (HookFn f)) = [bind f]"
| "bound_guards bind (Some (HookFns fs)) = map bind fs"

fun extract_slots ::
  "router \<Rightarrow> hook_name \<Rightarrow> (route_record \<Rightarrow> string \<Rightarrow> nat \<Rightarrow> guard option)
     \<Rightarrow> (route_record \<times> string) list \<Rightarrow> js_error + guard option list list"
where
  "extract_slots st name bind [] = Inr []"
| "extract_slots st name bind ((m, key) # rest) =
     (case extractGuard (slot_def st m key) name of
        Inl err \<Rightarrow> Inl err
      | Inr h \<Rightarrow>
          (case extract_slots st name bind rest of
             Inl err \<Rightarrow> Inl err
           | Inr gs \<Rightarrow> Inr (bound_guards (bind m key) h # gs)))"

definition extractGuards ::
  "router \<Rightarrow> route_record list \<Rightarrow> hook_name
     \<Rightarrow> (route_record \<Rightarrow> string \<Rightarrow> nat \<Rightarrow> guard option) \<Rightarrow> bool
     \<Rightarrow> js_error + guard option list"
where
  "extractGuards st records name bind reverse =
     (case extract_slots st name bind (component_slots records) of
        Inl err \<Rightarrow> Inl err
      | Inr guards \<Rightarrow> Inr (concat (if reverse then rev guards else guards)))"

text \<open>bindGuard yields nothing for a slot without a registered instance.\<close>

definition bindGuard :: "router \<Rightarrow> route_record \<Rightarrow> string \<Rightarrow> nat \<Rightarrow> guard option" where
  "bindGuard st m key f =
     (case instances st (rec_uid m, key) of None \<Rightarrow> None | Some i \<Rightarrow> Some (UserGuard f))"

definition extractLeaveGuards :: "router \<Rightarrow> route_record list \<Rightarrow> js_error + guard option list" where
  "extractLeaveGuards st records =
     extractGuards st records BeforeRouteLeave (bindGuard st) True"

definition extractUpdateHooks :: "router \<Rightarrow> route_record list \<Rightarrow> js_error + guard option list" where
  "extractUpdateHooks st records =
     extractGuards st records BeforeRouteUpdate (bindGuard st) False"

definition extractEnterGuards :: "router \<Rightarrow> route_record list \<Rightarrow> js_error + guard option list" where
  "extractEnterGuards st records =
     extractGuards st records BeforeRouteEnter
       (\<lambda>m key f. Some (EnterGuard f (rec_uid m) key)) False"

section \<open>The navigation controller (history/base.js)\<close>

text \<open>
  Object identity of Routes: \<open>this.pending !== route\<close> and \<open>this.current === route\<close>
  compare references.
\<close>

definition same_route_object :: "route \<Rightarrow> route \<Rightarrow> bool" where
  "same_route_object r1 r2 = (route_ref r1 = route_ref r2)"

definition pending_is :: "router \<Rightarrow> route \<Rightarrow> bool" where
  "pending_is st r = (case pending st of None \<Rightarrow> False | Some p \<Rightarrow> same_route_object p r)"

text \<open>
  What confirmTransition binds for its closures: the target, the route that was current
  when it started, its two callbacks and the activated records.
\<close>

record transition =
  tr_route :: route
  tr_current :: route
  tr_onComplete :: "router \<Rightarrow> router"
  tr_onAbort :: "(jsval \<Rightarrow> router \<Rightarrow> router) option"
  tr_activated :: "route_record list"

text \<open>
  \<open>abort\<close>: an error value other than NavigationDuplicated goes to every error
  listener, or to the console when there is none; then \<open>onAbort\<close> is called if given.
\<close>

definition abort :: "transition \<Rightarrow> jsval \<Rightarrow> router \<Rightarrow> router" where
  "abort tr err st =
     (let st1 =
            (if \<not> isNavigationDuplicated err \<and> isError err
             then (if errorCbs st \<noteq> []
                   then fold (\<lambda>cb. emit (ErrorListener cb err)) (errorCbs st) st
                   else emit (ConsoleError err) st)
             else st)
      in case tr_onAbort tr of None \<Rightarrow> st1 | Some f \<Rightarrow> f err st1)"

text \<open>
  The test of the redirect branch of the iterator:
  \<open>typeof to === 'string' || (typeof to === 'object' && (typeof to.path === 'string' ||
  typeof to.name === 'string'))\<close>. It is evaluated after \<open>false\<close> and error values have
  been handled; on \<open>null\<close> the property read throws TypeError.
\<close>

fun is_redirect :: "jsval \<Rightarrow> bool" where
  "is_redirect (JString s) = True"
| "is_redirect (JObject l r) = (loc_path l \<noteq> None \<or> loc_name l \<noteq> None)"
| "is_redirect v = False"

fun is_false :: "jsval \<Rightarrow> bool" where
  "is_false (JBool b) = (\<not> b)"
| "is_false v = False"

fun is_null :: "jsval \<Rightarrow> bool" where
  "is_null JNull = True"
| "is_null v = False"

fun wants_replace :: "jsval \<Rightarrow> bool" where
  "wants_replace (JObject l r) = r"
| "wants_replace v = False"

fun to_raw :: "jsval \<Rightarrow> raw_location" where
  "to_raw (JString s) = RawString s"
| "to_raw (JObject l r) = RawLocation l"
| "to_raw v = RawString []"

text \<open>
  The continuation \<open>(to) => { ... }\<close> that the iterator hands to a guard; \<open>nxt\<close> is
  the \<open>next\<close> of runQueue.
\<close>

definition hook_callback ::
  "backend \<Rightarrow> transition \<Rightarrow> (router \<Rightarrow> outcome) \<Rightarrow> jsval \<Rightarrow> router \<Rightarrow> outcome"
where
  "hook_callback be tr nxt to st =
     (if is_false to \<or> isError to
      then Done (abort tr to (ensureURL (Some True) st))
      else if is_null to
      then Raised (JError ''TypeError'') st
      else if is_redirect to
      then (if wants_replace to
            then be_replace be (to_raw to) None None (abort tr JUndefined st)
            else be_push be (to_raw to) None None (abort tr JUndefined st))
      else nxt st)"

text \<open>
  The run of a guard that was handed the continuation \<open>k\<close>: its calls of \<open>k\<close> one
  after the other, each in the state the previous one left, then its own exception if it
  throws one. An exception out of \<open>k\<close> ends the guard.
\<close>

fun run_calls :: "(jsval \<Rightarrow> router \<Rightarrow> outcome) \<Rightarrow> jsval list \<Rightarrow> router \<Rightarrow> outcome" where
  "run_calls k [] st = Done st"
| "run_calls k (v # vs) st =
     (case k v st of
        Done st' \<Rightarrow> run_calls k vs st'
      | Raised x st' \<Rightarrow> Raised x st')"

definition run_guard ::
  "guard_behaviour \<Rightarrow> (jsval \<Rightarrow> router \<Rightarrow> outcome) \<Rightarrow> router \<Rightarrow> outcome"
where
  "run_guard b k st =
     (case run_calls k (gb_calls b) st of
        Raised x st' \<Rightarrow> Raised x st'
      | Done st' \<Rightarrow> (case gb_throws b of Some x \<Rightarrow> Raised x st' | None \<Rightarrow> Done st'))"

text \<open>
  The continuation that the wrapper of bindEnterGuard hands to an in-component enter
  guard: a function argument is recorded in \<open>postEnterCbs\<close> before the argument is
  passed on.
\<close>

definition enter_callback ::
  "nat \<Rightarrow> string \<Rightarrow> (jsval \<Rightarrow> router \<Rightarrow> outcome) \<Rightarrow> jsval \<Rightarrow> router \<Rightarrow> outcome"
where
  "enter_callback uid key k cb st =
     k cb (case cb of
             JFunction c \<Rightarrow> st \<lparr> postEnterCbs := postEnterCbs st @ [(c, uid, key)] \<rparr>
           | other \<Rightarrow> st)"

text \<open>
  The call \<open>hook(route, current, (to) => { ... })\<close> for each kind of queue entry.
\<close>

definition invoke_guard ::
  "app \<Rightarrow> backend \<Rightarrow> transition \<Rightarrow> guard \<Rightarrow> (router \<Rightarrow> outcome) \<Rightarrow> router \<Rightarrow> outcome"
where
  "invoke_guard a be tr g nxt st =
     (case g of
        UserGuard f \<Rightarrow>
          run_guard (guard_fn a f (tr_route tr) (tr_current tr)) (hook_callback be tr nxt)
            (emit (GuardInvoked g) st)
      | EnterGuard f uid key \<Rightarrow>
          run_guard (guard_fn a f (tr_route tr) (tr_current tr))
            (enter_callback uid key (hook_callback be tr nxt))
            (emit (GuardInvoked g) st)
      | ResolveAsync matched \<Rightarrow>
          snd (resolveAsyncComponents a matched (hook_callback be tr nxt)
                 (emit (GuardInvoked g) st)))"

text \<open>
  The iterator: a superseded transition aborts without calling the guard; an exception
  thrown below the call of the guard is caught and aborts the transition.
\<close>

definition iterator ::
  "app \<Rightarrow> backend \<Rightarrow> transition \<Rightarrow> guard \<Rightarrow> (router \<Rightarrow> outcome) \<Rightarrow> router \<Rightarrow> outcome"
where
  "iterator a be tr hook nxt st =
     (if \<not> pending_is st (tr_route tr)
      then Done (abort tr JUndefined st)
      else case invoke_guard a be tr hook nxt st of
             Raised x st' \<Rightarrow> Done (abort tr x st')
           | Done st' \<Rightarrow> Done st')"

text \<open>The callback of the second queue.\<close>

definition finish_transition :: "transition \<Rightarrow> router \<Rightarrow> outcome" where
  "finish_transition tr st =
     (if \<not> pending_is st (tr_route tr)
      then Done (abort tr JUndefined st)
      else (let st1 = tr_onComplete tr (st \<lparr> pending := None \<rparr>)
            in Done (if app_root st1 then emit (NextTick (postEnterCbs st1)) st1 else st1)))"

text \<open>
  The callback of the first queue: the enter guards of the activated records, followed by
  the global resolve hooks.
\<close>

definition after_first_queue :: "app \<Rightarrow> backend \<Rightarrow> transition \<Rightarrow> router \<Rightarrow> outcome" where
  "after_first_queue a be tr st =
     (case extractEnterGuards (st \<lparr> postEnterCbs := [] \<rparr>) (tr_activated tr) of
        Inl err \<Rightarrow> Raised (error_value err) (st \<lparr> postEnterCbs := [] \<rparr>)
      | Inr enterGuards \<Rightarrow>
          runQueue (enterGuards @ map (map_option UserGuard) (resolveHooks st))
            (iterator a be tr) (finish_transition tr) (st \<lparr> postEnterCbs := [] \<rparr>))"

text \<open>The first queue of confirmTransition, or the exception thrown while it is built.\<close>

definition first_queue ::
  "router \<Rightarrow> route_record queue_diff \<Rightarrow> js_error + guard option list"
where
  "first_queue st d =
     (case extractLeaveGuards st (deactivated d) of
        Inl err \<Rightarrow> Inl err
      | Inr leaveGuards \<Rightarrow>
          (case extractUpdateHooks st (updated d) of
             Inl err \<Rightarrow> Inl err
           | Inr updateHooks \<Rightarrow>
               Inr (leaveGuards
                    @ map (map_option UserGuard) (beforeHooks st)
                    @ updateHooks
                    @ map (\<lambda>m. map_option UserGuard (rec_beforeEnter m)) (activated d)
                    @ [Some (ResolveAsync (activated d))])))"

definition confirmTransition ::
  "app \<Rightarrow> backend \<Rightarrow> route \<Rightarrow> (router \<Rightarrow> router) \<Rightarrow> (jsval \<Rightarrow> router \<Rightarrow> router) option
     \<Rightarrow> router \<Rightarrow> outcome"
where
  "confirmTransition a be route onComplete onAbort st =
     (let d = resolveQueue rec_uid (route_matched (current st)) (route_matched route);
          tr = \<lparr> tr_route = route, tr_current = current st, tr_onComplete = onComplete,
                 tr_onAbort = onAbort, tr_activated = activated d \<rparr>
      in if isSameRoute a route (current st)
            \<and> length (route_matched route) = length (route_matched (current st))
         then Done (abort tr (JNavigationDuplicated route) (ensureURL None st))
         else case first_queue st d of
                Inl err \<Rightarrow> Raised (error_value err) st
              | Inr queue \<Rightarrow>
                  runQueue queue (iterator a be tr) (after_first_queue a be tr)
                    (st \<lparr> pending := Some route \<rparr>))"

definition updateRoute :: "route \<Rightarrow> router \<Rightarrow> router" where
  "updateRoute route st =
     (let prev = current st;
          st1 = st \<lparr> current := route \<rparr>;
          st2 = (case listen_cb st1 of None \<Rightarrow> st1 | Some c \<Rightarrow> emit (RouteListener c route) st1)
      in fold (\<lambda>hook s. case hook of None \<Rightarrow> s | Some h \<Rightarrow> emit (AfterHook h route prev) s)
           (afterHooks st2) st2)"

text \<open>The two closures that transitionTo passes to confirmTransition.\<close>

definition transition_complete :: "route \<Rightarrow> callback option \<Rightarrow> router \<Rightarrow> router" where
  "transition_complete route onComplete st =
     (let st1 = updateRoute route st;
          st2 = (case onComplete of None \<Rightarrow> st1 | Some c \<Rightarrow> call_route c route st1);
          st3 = ensureURL None st2
      in if \<not> ready st3
         then fold (\<lambda>cb. emit (ReadyListener cb route)) (readyCbs st3) (st3 \<lparr> ready := True \<rparr>)
         else st3)"

definition transition_abort :: "callback option \<Rightarrow> jsval \<Rightarrow> router \<Rightarrow> router" where
  "transition_abort onAbort err st =
     (let st1 = (case onAbort of None \<Rightarrow> st | Some c \<Rightarrow> call_value c err st)
      in if js_truthy err \<and> \<not> ready st1
         then fold (\<lambda>cb. emit (ReadyErrorListener cb err)) (readyErrorCbs st1)
                (st1 \<lparr> ready := True \<rparr>)
         else st1)"

text \<open>
  transitionTo. The Route returned by the matcher is a new object: it receives the next
  free identity. An exception of the matcher is not caught.
\<close>

definition transitionTo ::
  "env \<Rightarrow> app \<Rightarrow> backend \<Rightarrow> raw_location \<Rightarrow> callback option \<Rightarrow> callback option \<Rightarrow> router
     \<Rightarrow> outcome"
where
  "transitionTo e a be raw onComplete onAbort st =
     (case match e (matcher_table st) (stack_limit a) raw (Some (current st)) None of
        Inl err \<Rightarrow> Raised (error_value err) st
      | Inr r \<Rightarrow>
          confirmTransition a be (r \<lparr> route_ref := next_ref st \<rparr>)
            (transition_complete (r \<lparr> route_ref := next_ref st \<rparr>) onComplete)
            (Some (transition_abort onAbort))
            (st \<lparr> next_ref := Suc (next_ref st) \<rparr>))"

section \<open>The router (index.js)\<close>

text \<open>
  VueRouter.addRoutes: \<open>START\<close> is the Route object with identity \<open>0\<close>.
\<close>

definition router_addRoutes ::
  "env \<Rightarrow> app \<Rightarrow> backend \<Rightarrow> route_config list \<Rightarrow> router \<Rightarrow> outcome"
where
  "router_addRoutes e a be routes st =
     (let st1 = st \<lparr> matcher_table := matcher_addRoutes e (matcher_table st) routes \<rparr>
      in if route_ref (current st1) \<noteq> 0
         then transitionTo e a be (RawString (url_location st1)) None None st1
         else Done st1)"






text \<open>The state of a Promise, read off the trace: the first settlement wins.\<close>

datatype promise_state = PromisePending | PromiseResolved route | PromiseRejected jsval

fun promise_of :: "nat \<Rightarrow> event list \<Rightarrow> promise_state" where
  "promise_of p [] = PromisePending"
| "promise_of p (CallbackRoute (PromiseResolve q) r # evs) =
     (if p = q then PromiseResolved r else promise_of p evs)"
| "promise_of p (CallbackValue (PromiseReject q) v # evs) =
     (if p = q then PromiseRejected v else promise_of p evs)"
| "promise_of p (ev # evs) = promise_of p evs"

text \<open>
  The events of an abort with reason \<open>err\<close> in state \<open>st\<close>, for a transition
  started by transitionTo with the abort callback \<open>onAbort\<close>: the error listeners (or
  the console), the abort callback, and the one-time ready-with-error listeners.
\<close>

definition abort_events :: "router \<Rightarrow> callback option \<Rightarrow> jsval \<Rightarrow> event list" where
  "abort_events st onAbort err =
     (if \<not> isNavigationDuplicated err \<and> isError err
      then (if errorCbs st \<noteq> [] then map (\<lambda>cb. ErrorListener cb err) (errorCbs st)
            else [ConsoleError err])
      else [])
     @ (case onAbort of None \<Rightarrow> [] | Some c \<Rightarrow> [CallbackValue c err])
     @ (if js_truthy err \<and> \<not> ready st
        then map (\<lambda>cb. ReadyErrorListener cb err) (readyErrorCbs st)
        else [])"

text \<open>Whether a computation returned, and the state it left.\<close>

fun returned :: "outcome \<Rightarrow> bool" where
  "returned (Done st) = True"
| "returned (Raised x st) = False"

fun final_state :: "outcome \<Rightarrow> router" where
  "final_state (Done st) = st"
| "final_state (Raised x st) = st"

text \<open>
  The arguments with which a callback was called, the calls of error listeners and the
  guards invoked, read off a trace.
\<close>

fun calls_of :: "callback \<Rightarrow> event list \<Rightarrow> jsval list" where
  "calls_of c [] = []"
| "calls_of c (CallbackValue c' v # evs) = (if c' = c then v # calls_of c evs else calls_of c evs)"
| "calls_of c (ev # evs) = calls_of c evs"

fun listener_calls :: "event list \<Rightarrow> (nat \<times> jsval) list" where
  "listener_calls [] = []"
| "listener_calls (ErrorListener n v # evs) = (n, v) # listener_calls evs"
| "listener_calls (ev # evs) = listener_calls evs"

fun guards_invoked :: "event list \<Rightarrow> guard list" where
  "guards_invoked [] = []"
| "guards_invoked (GuardInvoked g # evs) = g # guards_invoked evs"
| "guards_invoked (ev # evs) = guards_invoked evs"

text \<open>The entries of a queue that are guards; runQueue skips the others.\<close>

definition queue_guards :: "'g option list \<Rightarrow> 'g list" where
  "queue_guards q = concat (map (\<lambda>entry. case entry of None \<Rightarrow> [] | Some g \<Rightarrow> [g]) q)"

text \<open>
  A queue entry that lets a navigation from \<open>from\<close> to \<open>to\<close> proceed: a guard that
  calls its continuation once, without argument, and returns; or the lazy-view step of a
  chain of records none of whose views is a factory.
\<close>

definition proceeds :: "app \<Rightarrow> route \<Rightarrow> route \<Rightarrow> router \<Rightarrow> guard \<Rightarrow> bool" where
  "proceeds a to from st g =
     (case g of
        UserGuard f \<Rightarrow> guard_fn a f to from = \<lparr> gb_calls = [JUndefined], gb_throws = None \<rparr>
      | EnterGuard f uid key \<Rightarrow>
          guard_fn a f to from = \<lparr> gb_calls = [JUndefined], gb_throws = None \<rparr>
      | ResolveAsync matched \<Rightarrow> filter (is_factory_slot st) (component_slots matched) = [])"

text \<open>
  Modelled from the spec: util/route.js is not among the sources. START is the sentinel
  Route that is current before any transition completes: a failed match of the path
  \<open>/\<close>, with identity \<open>0\<close>.
\<close>

definition START :: "env \<Rightarrow> route" where
  "START e =
     createRoute e None
       \<lparr> loc_normalized = False, loc_name = None, loc_path = Some ''/'', loc_params = None,
         loc_query = None, loc_hash = None \<rparr>
       None"

text \<open>A URL backend that only records the navigations it is asked for.\<close>

definition recording_backend :: backend where
  "recording_backend =
     \<lparr> be_push = (\<lambda>raw onComplete onAbort st. Done (emit (NavigationRequested False raw) st)),
       be_replace = (\<lambda>raw onComplete onAbort st. Done (emit (NavigationRequested True raw) st)) \<rparr>"

section \<open>Example tables\<close>

text \<open>
  Declarations with a wildcard, a nested named route, a repeated path and an alias, and
  the table they build in the concrete environment.
\<close>

definition demo_routes :: "route_config list" where
  "demo_routes =
     [plain_route ''*'' None [] [],
      plain_route ''/a'' None [plain_route ''b'' (Some ''B'') [] []] [],
      plain_route ''/a'' None [] [''/x'']]"

definition demo_record ::
  "nat \<Rightarrow> string \<Rightarrow> string option \<Rightarrow> route_record option \<Rightarrow> string option \<Rightarrow> route_record"
where
  "demo_record uid path name parent matchAs =
     RouteRecord uid path (demo_Regexp path \<lparr> strict = False, sensitive = None \<rparr>)
       [(''default'', None)] name parent matchAs None None"

definition demo_table :: route_table where
  "demo_table =
     \<lparr> pathList = [''/a/b'', ''/a'', ''/x'', ''*''],
       pathMap =
         [''*'' \<mapsto> demo_record 0 ''*'' None None None,
          ''/a/b'' \<mapsto> demo_record 2 ''/a/b'' (Some ''B'')
                       (Some (demo_record 1 ''/a'' None None None)) None,
          ''/a'' \<mapsto> demo_record 1 ''/a'' None None None,
          ''/x'' \<mapsto> demo_record 4 ''/x'' None None (Some ''/a'')],
       nameMap =
         [''B'' \<mapsto> demo_record 2 ''/a/b'' (Some ''B'')
                    (Some (demo_record 1 ''/a'' None None None)) None],
       next_uid = 5 \<rparr>"

text \<open>
  Declarations in which an earlier pattern (\<open>/:id\<close>) also matches the path of a
  later named route (\<open>/foo\<close>).
\<close>

definition shadow_routes :: "route_config list" where
  "shadow_routes =
     [plain_route ''/:id'' None [] [],
      plain_route ''/foo'' (Some ''foo'') [] []]"

definition shadow_table :: route_table where
  "shadow_table =
     \<lparr> pathList = [''/:id'', ''/foo''],
       pathMap =
         [''/:id'' \<mapsto> demo_record 0 ''/:id'' None None None,
          ''/foo'' \<mapsto> demo_record 1 ''/foo'' (Some ''foo'') None None],
       nameMap = [''foo'' \<mapsto> demo_record 1 ''/foo'' (Some ''foo'') None None],
       next_uid = 2 \<rparr>"

definition named_loc :: "string \<Rightarrow> params option \<Rightarrow> location" where
  "named_loc name ps =
     \<lparr> loc_normalized = True, loc_name = Some name, loc_path = None, loc_params = ps,
       loc_query = None, loc_hash = None \<rparr>"

definition path_loc :: "string \<Rightarrow> location" where
  "path_loc path =
     \<lparr> loc_normalized = True, loc_name = None, loc_path = Some path, loc_params = None,
       loc_query = None, loc_hash = None \<rparr>"



section \<open>Example applications\<close>

text \<open>
  Guards of the example application: guard 1 throws a string, guard 2 answers
  \<open>false\<close>, guard 3 redirects to the path \<open>/a\<close>, guard 4 redirects to it with the
  replace flag, guard 5 throws an Error, guard 6 passes an Error to its continuation,
  guard 7 answers \<open>false\<close> and then throws an Error, guard 8 proceeds and then throws
  an Error, guard 9 redirects to the location object of the path \<open>/a\<close> without the
  replace flag; every other guard proceeds. isSameRoute compares path, hash and query of
  two Routes other than START, as the specification describes.
\<close>

definition calls_once :: "jsval \<Rightarrow> guard_behaviour" where
  "calls_once v = \<lparr> gb_calls = [v], gb_throws = None \<rparr>"

definition throws_at_once :: "jsval \<Rightarrow> guard_behaviour" where
  "throws_at_once x = \<lparr> gb_calls = [], gb_throws = Some x \<rparr>"

definition demo_guard :: "nat \<Rightarrow> route \<Rightarrow> route \<Rightarrow> guard_behaviour" where
  "demo_guard f to from =
     (if f = 1 then throws_at_once (JString ''boom'')
      else if f = 2 then calls_once (JBool False)
      else if f = 3 then calls_once (JString ''/a'')
      else if f = 4 then calls_once (JObject (path_loc ''/a'') True)
      else if f = 5 then throws_at_once (JError ''bad'')
      else if f = 6 then calls_once (JError ''refused'')
      else if f = 7 then \<lparr> gb_calls = [JBool False], gb_throws = Some (JError ''late'') \<rparr>
      else if f = 8 then \<lparr> gb_calls = [JUndefined], gb_throws = Some (JError ''late'') \<rparr>
      else if f = 9 then calls_once (JObject (path_loc ''/a'') False)
      else calls_once JUndefined)"

definition demo_isSameRoute :: "route \<Rightarrow> route \<Rightarrow> bool" where
  "demo_isSameRoute r1 r2 =
     (if route_ref r2 = 0 then route_ref r1 = 0
      else route_path r1 = route_path r2 \<and> route_hash r1 = route_hash r2
           \<and> route_query r1 = route_query r2)"

definition demo_app :: app where
  "demo_app =
     \<lparr> guard_fn = demo_guard,
       factory_fn = (\<lambda>f. \<lparr> fb_calls = [], fb_throws = None, fb_returns = ReturnsNothing \<rparr>),
       function_text = (\<lambda>f. ''function () { [native code] }''),
       isSameRoute = demo_isSameRoute,
       promise_defined = True,
       stack_limit = 2 \<rparr>"

definition start_router :: router where
  "start_router =
     \<lparr> matcher_table = demo_table, beforeHooks = [], resolveHooks = [], afterHooks = [],
       app_root = False, current = START demo_env, pending = None, ready = False,
       readyCbs = [], readyErrorCbs = [], errorCbs = [], listen_cb = None,
       comp_store = Map.empty, instances = Map.empty, postEnterCbs = [],
       url_location = ''/'', next_ref = 1, next_promise = 0, trace = [] \<rparr>"





text \<open>
  A router whose table has the single path \<open>/a\<close> and whose current Route is the failed
  match of the path \<open>/new\<close>, which is also the location of the URL backend.
\<close>

definition small_table :: route_table where
  "small_table =
     \<lparr> pathList = [''/a''],
       pathMap = [''/a'' \<mapsto> demo_record 0 ''/a'' None None None],
       nameMap = Map.empty,
       next_uid = 1 \<rparr>"

definition route_nowhere :: route where
  "route_nowhere =
     \<lparr> route_ref = 1, route_name = None, route_path = ''/new'', route_hash = [],
       route_query = [], route_params = [], route_fullPath = ''/new'',
       route_matched = [], route_redirectedFrom = None \<rparr>"

definition lost_router :: router where
  "lost_router =
     start_router \<lparr> matcher_table := small_table, current := route_nowhere, ready := True,
                    url_location := ''/new'', next_ref := 2 \<rparr>"

text \<open>
  A chain of two records whose views are factories that call \<open>resolve\<close> before they
  return, and a continuation that only records the argument it is called with.
\<close>

definition plain_view :: view_def where
  "plain_view =
     ViewObject \<lparr> beforeRouteEnter = None, beforeRouteUpdate = None, beforeRouteLeave = None \<rparr>"

definition lazy_record :: "nat \<Rightarrow> string \<Rightarrow> nat \<Rightarrow> route_record option \<Rightarrow> route_record" where
  "lazy_record uid path factory parent =
     RouteRecord uid path (demo_Regexp path \<lparr> strict = False, sensitive = None \<rparr>)
       [(''default'', Some (ViewFactory factory))] None parent None None None"

definition lazy_chain :: "route_record list" where
  "lazy_chain =
     [lazy_record 0 ''/p'' 1 None,
      lazy_record 1 ''/p/q'' 2 (Some (lazy_record 0 ''/p'' 1 None))]"

definition sync_app :: app where
  "sync_app =
     demo_app \<lparr> factory_fn := (\<lambda>f. \<lparr> fb_calls = [Resolve (PlainDef plain_view)],
                                       fb_throws = None, fb_returns = ReturnsNothing \<rparr>) \<rparr>"

definition record_next :: "jsval \<Rightarrow> router \<Rightarrow> outcome" where
  "record_next v st = Done (emit (CallbackValue (UserCallback 0) v) st)"

definition grown_table :: route_table where
  "grown_table =
     \<lparr> pathList = [''/a'', ''/new''],
       pathMap = [''/a'' \<mapsto> demo_record 0 ''/a'' None None None,
                  ''/new'' \<mapsto> demo_record 1 ''/new'' None None None],
       nameMap = Map.empty,
       next_uid = 2 \<rparr>"

definition lazy_table :: route_table where
  "lazy_table =
     \<lparr> pathList = [''/p/q'', ''/p''],
       pathMap = [''/p/q'' \<mapsto> lazy_record 1 ''/p/q'' 2 (Some (lazy_record 0 ''/p'' 1 None)),
                  ''/p'' \<mapsto> lazy_record 0 ''/p'' 1 None],
       nameMap = Map.empty,
       next_uid = 2 \<rparr>"

definition route_q :: route where
  "route_q =
     \<lparr> route_ref = 1, route_name = None, route_path = ''/p/q'', route_hash = [],
       route_query = [], route_params = [], route_fullPath = ''/p/q'',
       route_matched = lazy_chain, route_redirectedFrom = None \<rparr>"



section \<open>Properties of the chain diff\<close>

lemma first_divergence_le:
  "first_divergence oid c n \<le> length c" "first_divergence oid c n \<le> length n"
  unfolding first_divergence_def
  by (metis length_takeWhile_le length_zip min.cobounded1 min.cobounded2 le_trans)+

lemma first_divergence_Cons:
  "first_divergence oid (a # c) (b # n) =
     (if oid a = oid b then Suc (first_divergence oid c n) else 0)"
  by (simp add: first_divergence_def)

lemma first_divergence_Nil [simp]:
  "first_divergence oid [] n = 0" "first_divergence oid c [] = 0"
  by (simp_all add: first_divergence_def)

lemma first_divergence_drop:
  assumes "i < max (length c) (length n)"
  shows "first_divergence oid (drop i c) (drop i n) =
     (if map_option oid (js_index c i) \<noteq> map_option oid (js_index n i) then 0
      else Suc (first_divergence oid (drop (Suc i) c) (drop (Suc i) n)))"
proof (cases "i < length c")
  case c: True
  show ?thesis
  proof (cases "i < length n")
    case True
    with c show ?thesis
      by (simp add: js_index_def Cons_nth_drop_Suc [symmetric] first_divergence_Cons)
  next
    case False
    with c show ?thesis by (simp add: js_index_def)
  qed
next
  case False
  with assms have "i < length n" by simp
  with False show ?thesis by (simp add: js_index_def)
qed

lemma resolveQueue_loop_eq:
  "mx = max (length c) (length n) \<Longrightarrow> i \<le> mx \<Longrightarrow>
   resolveQueue_loop oid c n mx i = i + first_divergence oid (drop i c) (drop i n)"
proof (induction oid c n mx i rule: resolveQueue_loop.induct)
  case (1 oid cur nxt mx i)
  show ?case
  proof (cases "i < mx")
    case True
    then show ?thesis
      using 1 first_divergence_drop [of i cur nxt oid]
      by (subst resolveQueue_loop.simps) simp
  next
    case False
    with 1 have "i = mx" by simp
    with 1 show ?thesis by (subst resolveQueue_loop.simps) simp
  qed
qed

lemma first_divergence_take:
  "map oid (take (first_divergence oid c n) c) = map oid (take (first_divergence oid c n) n)"
proof (induction c arbitrary: n)
  case Nil then show ?case by simp
next
  case (Cons a c)
  then show ?case by (cases n) (simp_all add: first_divergence_Cons)
qed

lemma first_divergence_differs:
  "first_divergence oid c n < length c \<Longrightarrow> first_divergence oid c n < length n \<Longrightarrow>
   oid (c ! first_divergence oid c n) \<noteq> oid (n ! first_divergence oid c n)"
proof (induction c arbitrary: n)
  case Nil then show ?case by simp
next
  case (Cons a c)
  then show ?case by (cases n) (auto simp: first_divergence_Cons)
qed

lemma resolveQueue_eq:
  "resolveQueue oid cur nxt =
      \<lparr> updated = take (first_divergence oid cur nxt) nxt,
        activated = drop (first_divergence oid cur nxt) nxt,
        deactivated = drop (first_divergence oid cur nxt) cur \<rparr>"
  by (simp add: resolveQueue_def Let_def resolveQueue_loop_eq)

text \<open>
  Claim C4. For every pair of matched chains, with \<open>i\<close> the first index at which the
  chains stop holding the same record objects (below \<open>i\<close> they agree; where both have
  an entry at \<open>i\<close> the entries are different objects), the diff is
  \<open>updated = target[0..i)\<close>, \<open>activated = target[i..)\<close>,
  \<open>deactivated = current[i..)\<close>. In particular the chains \<open>[A, B, C]\<close> and
  \<open>[A, B, D]\<close> with different objects \<open>C\<close>, \<open>D\<close> give \<open>updated = [A, B]\<close>,
  \<open>activated = [D]\<close>, \<open>deactivated = [C]\<close>.
\<close>

theorem resolveQueue_diff:
  "resolveQueue oid cur nxt =
      \<lparr> updated = take (first_divergence oid cur nxt) nxt,
        activated = drop (first_divergence oid cur nxt) nxt,
        deactivated = drop (first_divergence oid cur nxt) cur \<rparr>
   \<and> first_divergence oid cur nxt \<le> length cur
   \<and> first_divergence oid cur nxt \<le> length nxt
   \<and> map oid (take (first_divergence oid cur nxt) cur) =
       map oid (take (first_divergence oid cur nxt) nxt)
   \<and> (first_divergence oid cur nxt < length cur \<longrightarrow>
      first_divergence oid cur nxt < length nxt \<longrightarrow>
      oid (cur ! first_divergence oid cur nxt) \<noteq> oid (nxt ! first_divergence oid cur nxt))
   \<and> (oid C \<noteq> oid D \<longrightarrow>
      resolveQueue oid [A, B, C] [A, B, D] =
        \<lparr> updated = [A, B], activated = [D], deactivated = [C] \<rparr>)"
proof -
  have "oid C \<noteq> oid D \<longrightarrow>
      resolveQueue oid [A, B, C] [A, B, D] =
        \<lparr> updated = [A, B], activated = [D], deactivated = [C] \<rparr>"
    by (simp add: resolveQueue_eq first_divergence_def)
  then show ?thesis
    using resolveQueue_eq [of oid cur nxt]
      first_divergence_le [of oid cur nxt] first_divergence_take [of oid cur nxt]
      first_divergence_differs [of oid cur nxt]
    by blast
qed

theorem resolveQueue_diff_witness:
  "resolveQueue id [1, 2, 3, 5] [1, 2, 4 :: nat] =
      \<lparr> updated = [1, 2], activated = [4], deactivated = [3, 5] \<rparr>
   \<and> first_divergence id [1, 2, 3, 5] [1, 2, 4 :: nat] = 2
   \<and> id ([1, 2, 3, 5] ! 2) \<noteq> id ([1, 2, 4 :: nat] ! 2)
   \<and> id (3 :: nat) \<noteq> id 4
   \<and> resolveQueue id [1, 2, 3] [1, 2, 4 :: nat] =
       \<lparr> updated = [1, 2], activated = [4], deactivated = [3] \<rparr>"
  using resolveQueue_diff [of id "[1, 2, 3, 5]" "[1, 2, 4 :: nat]" "3 :: nat" 4 1 2]
  by (simp add: first_divergence_def)

section \<open>Properties of the route table\<close>

lemma wildcard_loop_eq:
  "l \<le> length pl \<Longrightarrow> i \<le> l \<Longrightarrow>
   wildcard_loop pl i l =
     take i pl @ filter (\<lambda>p. p \<noteq> ''*'') (take (l - i) (drop i pl)) @ drop l pl
       @ filter (\<lambda>p. p = ''*'') (take (l - i) (drop i pl))"
proof (induction pl i l rule: wildcard_loop.induct)
  case (1 pl i l)
  show ?case
  proof (cases "i < l")
    case False
    with 1 have "i = l" by simp
    then show ?thesis by (subst wildcard_loop.simps) simp
  next
    case il: True
    with 1 have i: "i < length pl" by simp
    have td: "take (l - i) (drop i pl) = pl ! i # take (l - Suc i) (drop (Suc i) pl)"
      using il i by (metis Cons_nth_drop_Suc Suc_diff_Suc take_Suc_Cons)
    show ?thesis
    proof (cases "pl ! i = ''*''")
      case True
      let ?pl' = "take i pl @ drop (Suc i) pl @ [''*'']"
      have len: "l - 1 \<le> length ?pl'" "i \<le> l - 1" using 1 il i by auto
      have a: "take i ?pl' = take i pl" using i by simp
      have b: "drop i ?pl' = drop (Suc i) pl @ [''*'']" using i by simp
      have c: "take (l - 1 - i) (drop (Suc i) pl @ [''*'']) = take (l - Suc i) (drop (Suc i) pl)"
        using 1 il i by simp
      have d: "drop (l - 1) ?pl' = drop l pl @ [''*'']"
        using 1 il i by (simp add: min_def)
      have "wildcard_loop pl i l = wildcard_loop ?pl' i (l - 1)"
        using il i True by (subst wildcard_loop.simps) (simp add: js_index_def)
      also have "\<dots> = take i ?pl' @ filter (\<lambda>p. p \<noteq> ''*'') (take (l - 1 - i) (drop i ?pl'))
           @ drop (l - 1) ?pl' @ filter (\<lambda>p. p = ''*'') (take (l - 1 - i) (drop i ?pl'))"
        using "1.IH"(1) [OF il _ len] i True by (simp add: js_index_def)
      finally show ?thesis
        unfolding a b c d td using True by simp
    next
      case False
      have "wildcard_loop pl i l = wildcard_loop pl (Suc i) l"
        using il i False by (subst wildcard_loop.simps) (simp add: js_index_def)
      also have "\<dots> = take (Suc i) pl @ filter (\<lambda>p. p \<noteq> ''*'') (take (l - Suc i) (drop (Suc i) pl))
           @ drop l pl @ filter (\<lambda>p. p = ''*'') (take (l - Suc i) (drop (Suc i) pl))"
        using "1.IH"(2) [OF il] 1 il i False by (simp add: js_index_def)
      finally show ?thesis
        unfolding td using False i by (simp add: take_Suc_conv_app_nth)
    qed
  qed
qed

lemma wildcard_loop_all:
  "wildcard_loop pl 0 (length pl) = filter (\<lambda>p. p \<noteq> ''*'') pl @ filter (\<lambda>p. p = ''*'') pl"
  by (simp add: wildcard_loop_eq)

lemma extends_table_refl: "table_consistent t \<Longrightarrow> extends_table t t"
  by (simp add: extends_table_def)

lemma extends_table_trans:
  "extends_table t t' \<Longrightarrow> extends_table t' t'' \<Longrightarrow> extends_table t t''"
  by (auto simp: extends_table_def)

lemma fold_extends:
  assumes "table_consistent t"
    and "\<And>x s. x \<in> set xs \<Longrightarrow> table_consistent s \<Longrightarrow> extends_table s (f x s)"
  shows "extends_table t (fold f xs t)"
  using assms
proof (induction xs arbitrary: t)
  case Nil
  then show ?case by (simp add: extends_table_refl)
next
  case (Cons x xs)
  have 1: "extends_table t (f x t)" using Cons.prems by simp
  then have "table_consistent (f x t)" by (simp add: extends_table_def)
  then have "extends_table (f x t) (fold f xs (f x t))"
    using Cons.IH Cons.prems(2) by simp
  with 1 show ?case using extends_table_trans by auto
qed

lemma extends_next_uid:
  "extends_table t (t \<lparr> next_uid := n \<rparr>) = table_consistent t"
  by (simp add: extends_table_def table_consistent_def)

lemma extends_register:
  "table_consistent t \<Longrightarrow> pathMap t p = None \<Longrightarrow>
   extends_table t (t \<lparr> pathList := pathList t @ [p], pathMap := (pathMap t)(p \<mapsto> r) \<rparr>)"
  by (auto simp: extends_table_def table_consistent_def)

lemma extends_nameMap:
  "extends_table t (t \<lparr> nameMap := m \<rparr>) = table_consistent t"
  by (simp add: extends_table_def table_consistent_def)

lemma addRouteRecord_extends:
  "table_consistent tbl \<Longrightarrow> extends_table tbl (addRouteRecord e tbl route parent matchAs)"
proof (induction e tbl route parent matchAs rule: addRouteRecord.induct)
  case (1 e tbl route parent matchAs)
  define path where "path = cfg_path route"
  define name where "name = cfg_name route"
  define opts0 where "opts0 = (case cfg_pathToRegexpOptions route of
                     None \<Rightarrow> \<lparr> strict = False, sensitive = None \<rparr>
                   | Some opts \<Rightarrow> opts)"
  define normalizedPath where "normalizedPath = normalizePath e path parent (strict opts0)"
  define pathToRegexpOptions where "pathToRegexpOptions =
            (case cfg_caseSensitive route of
               None \<Rightarrow> opts0
             | Some b \<Rightarrow> opts0 \<lparr> sensitive := Some b \<rparr>)"
  define rcd where "rcd = RouteRecord (next_uid tbl) normalizedPath
                     (compileRouteRegex e normalizedPath pathToRegexpOptions)
                     (case cfg_components route of
                        Some cs \<Rightarrow> cs
                      | None \<Rightarrow> [(''default'', cfg_component route)])
                     name parent matchAs (cfg_redirect route) (cfg_beforeEnter route)"
  define tbl0 where "tbl0 = tbl \<lparr> next_uid := Suc (next_uid tbl) \<rparr>"
  define tbl1 where "tbl1 = fold (\<lambda>child t.
                    addRouteRecord e t child (Some rcd)
                      (if truthy matchAs
                       then Some (cleanPath e (the matchAs @ ''/'' @ cfg_path child))
                       else None))
                  (cfg_children route) tbl0"
  define tbl2 where "tbl2 = (if pathMap tbl1 (rec_path rcd) = None
                  then tbl1 \<lparr> pathList := pathList tbl1 @ [rec_path rcd],
                              pathMap := (pathMap tbl1)(rec_path rcd \<mapsto> rcd) \<rparr>
                  else tbl1)"
  define tbl3 where "tbl3 = fold (\<lambda>alias t.
                    if \<not> production e \<and> alias = path then t
                    else addRouteRecord e t
                           (RouteConfig alias None None None None None (cfg_children route) []
                              None None)
                           parent
                           (Some (if rec_path rcd \<noteq> [] then rec_path rcd else ''/'')))
                  (cfg_alias route) tbl2"
  note defs = path_def name_def opts0_def normalizedPath_def pathToRegexpOptions_def
    rcd_def tbl0_def tbl1_def tbl2_def tbl3_def
  have res: "addRouteRecord e tbl route parent matchAs =
      (if truthy name \<and> nameMap tbl3 (the name) = None
         then tbl3 \<lparr> nameMap := (nameMap tbl3)(the name \<mapsto> rcd) \<rparr>
         else tbl3)"
    unfolding defs by (subst addRouteRecord.simps) (simp only: Let_def)
  have e0: "extends_table tbl tbl0"
    using "1.prems" by (simp add: tbl0_def extends_next_uid)
  then have c0: "table_consistent tbl0" by (simp add: extends_table_def)
  have e1: "extends_table tbl0 tbl1"
    unfolding tbl1_def
    by (rule fold_extends [OF c0]) (rule "1.IH"(1) [OF path_def name_def opts0_def
          normalizedPath_def pathToRegexpOptions_def rcd_def tbl0_def])
  then have c1: "table_consistent tbl1" by (simp add: extends_table_def)
  have e2: "extends_table tbl1 tbl2"
    using c1 by (simp add: tbl2_def extends_register extends_table_refl)
  then have c2: "table_consistent tbl2" by (simp add: extends_table_def)
  have e3: "extends_table tbl2 tbl3"
    unfolding tbl3_def
  proof (rule fold_extends [OF c2])
    fix x s assume x: "x \<in> set (cfg_alias route)" and s: "table_consistent s"
    show "extends_table s (if \<not> production e \<and> x = path then s
                    else addRouteRecord e s
                           (RouteConfig x None None None None None (cfg_children route) []
                              None None)
                           parent
                           (Some (if rec_path rcd \<noteq> [] then rec_path rcd else ''/'')))"
    proof (cases "\<not> production e \<and> x = path")
      case True
      then show ?thesis using s by (simp add: extends_table_refl)
    next
      case False
      show ?thesis
        unfolding if_not_P [OF False]
        by (rule "1.IH"(2) [OF path_def name_def opts0_def
          normalizedPath_def pathToRegexpOptions_def rcd_def tbl0_def tbl1_def tbl2_def x False s])
    qed
  qed
  have "extends_table tbl tbl3"
    using e0 e1 e2 e3 extends_table_trans by blast
  then show ?case
    unfolding res by (auto simp: extends_table_def table_consistent_def)
qed

lemma registerRoutes_extends:
  "table_consistent t \<Longrightarrow> extends_table t (registerRoutes e routes t)"
  unfolding registerRoutes_def
  by (rule fold_extends) (simp_all add: addRouteRecord_extends)

lemma wildcards_last_pinned:
  "wildcards_last (filter (\<lambda>p. p \<noteq> ''*'') pl @ filter (\<lambda>p. p = ''*'') pl)"
  by (simp add: wildcards_last_def)

lemma createRouteMap_pathList:
  "pathList (createRouteMap e routes old) =
     filter (\<lambda>p. p \<noteq> ''*'')
       (pathList (registerRoutes e routes (case old of None \<Rightarrow> empty_table | Some t \<Rightarrow> t)))
     @ filter (\<lambda>p. p = ''*'')
       (pathList (registerRoutes e routes (case old of None \<Rightarrow> empty_table | Some t \<Rightarrow> t)))"
  by (simp add: createRouteMap_def Let_def wildcard_loop_all)

lemma createRouteMap_pathMap:
  "pathMap (createRouteMap e routes old) =
     pathMap (registerRoutes e routes (case old of None \<Rightarrow> empty_table | Some t \<Rightarrow> t))"
  by (simp add: createRouteMap_def Let_def)

lemma empty_table_consistent: "table_consistent empty_table"
  by (simp add: table_consistent_def empty_table_def)

lemma createRouteMap_consistent:
  assumes "table_consistent (case old of None \<Rightarrow> empty_table | Some t \<Rightarrow> t)"
  shows "table_consistent (createRouteMap e routes old)"
proof -
  let ?r = "registerRoutes e routes (case old of None \<Rightarrow> empty_table | Some t \<Rightarrow> t)"
  have c: "table_consistent ?r"
    using registerRoutes_extends [OF assms] by (simp add: extends_table_def)
  have s: "set (pathList (createRouteMap e routes old)) = set (pathList ?r)"
    unfolding createRouteMap_pathList by auto
  have "distinct (filter (\<lambda>p. p \<noteq> ''*'') (pathList ?r) @ filter (\<lambda>p. p = ''*'') (pathList ?r))"
    using c by (auto simp: table_consistent_def)
  then have d: "distinct (pathList (createRouteMap e routes old))"
    unfolding createRouteMap_pathList .
  show ?thesis
    using c s d by (simp add: table_consistent_def createRouteMap_pathMap)
qed

lemma createRouteMap_wildcards_last:
  "wildcards_last (pathList (createRouteMap e routes old))"
  unfolding createRouteMap_pathList by (rule wildcards_last_pinned)

lemma foldl_addRoutes_ok:
  "table_consistent t \<Longrightarrow> wildcards_last (pathList t) \<Longrightarrow>
   table_consistent (foldl (matcher_addRoutes e) t additions)
   \<and> wildcards_last (pathList (foldl (matcher_addRoutes e) t additions))"
proof (induction additions arbitrary: t)
  case Nil
  then show ?case by simp
next
  case (Cons a additions)
  have "table_consistent (matcher_addRoutes e t a)"
    unfolding matcher_addRoutes_def using Cons.prems(1) by (simp add: createRouteMap_consistent)
  moreover have "wildcards_last (pathList (matcher_addRoutes e t a))"
    unfolding matcher_addRoutes_def by (rule createRouteMap_wildcards_last)
  ultimately show ?case using Cons.IH by simp
qed

subsection \<open>Running the builder on the example declarations\<close>

lemma addRouteRecord_cfg:
  "addRouteRecord e tbl (RouteConfig path name cmpt cmpts redir be children aliases cs opts) parent matchAs =
     (let route = RouteConfig path name cmpt cmpts redir be children aliases cs opts;
          opts0 = (case opts of
                     None \<Rightarrow> \<lparr> strict = False, sensitive = None \<rparr>
                   | Some opts \<Rightarrow> opts);
          normalizedPath = normalizePath e path parent (strict opts0);
          pathToRegexpOptions =
            (case cs of
               None \<Rightarrow> opts0
             | Some b \<Rightarrow> opts0 \<lparr> sensitive := Some b \<rparr>);
          rcd = RouteRecord (next_uid tbl) normalizedPath
                     (compileRouteRegex e normalizedPath pathToRegexpOptions)
                     (case cmpts of
                        Some cs \<Rightarrow> cs
                      | None \<Rightarrow> [(''default'', cmpt)])
                     name parent matchAs redir be;
          tbl0 = tbl \<lparr> next_uid := Suc (next_uid tbl) \<rparr>;
          tbl1 = fold (\<lambda>child t.
                    addRouteRecord e t child (Some rcd)
                      (if truthy matchAs
                       then Some (cleanPath e (the matchAs @ ''/'' @ cfg_path child))
                       else None))
                  children tbl0;
          tbl2 = (if pathMap tbl1 (rec_path rcd) = None
                  then tbl1 \<lparr> pathList := pathList tbl1 @ [rec_path rcd],
                              pathMap := (pathMap tbl1)(rec_path rcd \<mapsto> rcd) \<rparr>
                  else tbl1);
          tbl3 = fold (\<lambda>alias t.
                    if \<not> production e \<and> alias = path then t
                    else addRouteRecord e t
                           (RouteConfig alias None None None None None children []
                              None None)
                           parent
                           (Some (if rec_path rcd \<noteq> [] then rec_path rcd else ''/'')))
                  aliases tbl2
      in if truthy name \<and> nameMap tbl3 (the name) = None
         then tbl3 \<lparr> nameMap := (nameMap tbl3)(the name \<mapsto> rcd) \<rparr>
         else tbl3)"
  by (subst addRouteRecord.simps) (simp only: Let_def route_config.sel)

lemma demo_env_sel [simp]:
  "production demo_env = False" "Regexp demo_env = demo_Regexp"
  "cleanPath demo_env = demo_cleanPath" "fillParams demo_env = demo_fillParams"
  "decodeURIComponent demo_env = Some" "stringifyQuery demo_env = demo_stringifyQuery"
  "parseLocation demo_env = demo_parseLocation" "redirect_fn demo_env = (\<lambda>f r. RvOther)"
  "resolvePath demo_env = (\<lambda>relative base append. relative)"
  by (simp_all add: demo_env_def)

lemma fold_weak_cong: "xs = ys \<Longrightarrow> s = t \<Longrightarrow> fold f xs s = fold f ys t"
  by simp

lemma fold_Nil_apply: "fold f [] s = s"
  by simp

lemma fold_Cons_apply: "fold f (x # xs) s = fold f xs (f x s)"
  by simp

lemmas table_eval =
  addRouteRecord_cfg Let_def normalizePath_def strip_trailing_slash_def js_index_def
  compileRouteRegex_def registerRoutes_def empty_table_def
  plain_route_def fold_Nil_apply fold_Cons_apply

lemma demo_registered:
  "registerRoutes demo_env demo_routes empty_table =
     demo_table \<lparr> pathList := [''*'', ''/a/b'', ''/a'', ''/x''] \<rparr>"
  by (simp add: table_eval demo_routes_def demo_table_def demo_record_def eval_nat_numeral
        del: fold_simps cong: fold_weak_cong let_weak_cong)

lemma demo_table_built: "createRouteMap demo_env demo_routes None = demo_table"
  by (simp add: createRouteMap_def Let_def demo_registered wildcard_loop_all)
     (simp add: demo_table_def)

lemma demo_table_more:
  "pathList (registerRoutes demo_env [plain_route ''/new'' None [] []] demo_table) =
     [''/a/b'', ''/a'', ''/x'', ''*'', ''/new'']"
  by (simp add: table_eval demo_table_def demo_record_def
        del: fold_simps cong: fold_weak_cong let_weak_cong)

text \<open>
  Claim C6. For every declaration tree, also after any number of additions through
  addRoutes, the paths of pathMap are exactly the entries of pathList and pathList has
  no duplicates; the wildcard entries (path \<open>*\<close>) come after all other entries, and
  within each group the entries keep the order in which they were registered (entries of
  the old table before the added ones).
\<close>

theorem route_table_invariant:
  "table_consistent (built_table e routes additions)
   \<and> wildcards_last (pathList (built_table e routes additions))
   \<and> pathList (createRouteMap e routes None) =
       filter (\<lambda>p. p \<noteq> ''*'') (pathList (registerRoutes e routes empty_table))
       @ filter (\<lambda>p. p = ''*'') (pathList (registerRoutes e routes empty_table))
   \<and> (table_consistent tbl \<longrightarrow>
        table_consistent (matcher_addRoutes e tbl added)
      \<and> (\<exists>new. pathList (registerRoutes e added tbl) = pathList tbl @ new)
      \<and> pathList (matcher_addRoutes e tbl added) =
          filter (\<lambda>p. p \<noteq> ''*'') (pathList (registerRoutes e added tbl))
          @ filter (\<lambda>p. p = ''*'') (pathList (registerRoutes e added tbl)))"
proof -
  have "table_consistent (createRouteMap e routes None)"
    by (simp add: createRouteMap_consistent empty_table_consistent)
  then have a: "table_consistent (built_table e routes additions)
     \<and> wildcards_last (pathList (built_table e routes additions))"
    unfolding built_table_def
    by (rule foldl_addRoutes_ok) (rule createRouteMap_wildcards_last)
  have b: "pathList (createRouteMap e routes None) =
       filter (\<lambda>p. p \<noteq> ''*'') (pathList (registerRoutes e routes empty_table))
       @ filter (\<lambda>p. p = ''*'') (pathList (registerRoutes e routes empty_table))"
    by (simp add: createRouteMap_pathList)
  have c: "table_consistent tbl \<longrightarrow>
        table_consistent (matcher_addRoutes e tbl added)
      \<and> (\<exists>new. pathList (registerRoutes e added tbl) = pathList tbl @ new)
      \<and> pathList (matcher_addRoutes e tbl added) =
          filter (\<lambda>p. p \<noteq> ''*'') (pathList (registerRoutes e added tbl))
          @ filter (\<lambda>p. p = ''*'') (pathList (registerRoutes e added tbl))"
  proof
    assume t: "table_consistent tbl"
    have "table_consistent (matcher_addRoutes e tbl added)"
      unfolding matcher_addRoutes_def using t by (simp add: createRouteMap_consistent)
    moreover have "\<exists>new. pathList (registerRoutes e added tbl) = pathList tbl @ new"
      using registerRoutes_extends [OF t, of e added] by (simp add: extends_table_def)
    moreover have "pathList (matcher_addRoutes e tbl added) =
          filter (\<lambda>p. p \<noteq> ''*'') (pathList (registerRoutes e added tbl))
          @ filter (\<lambda>p. p = ''*'') (pathList (registerRoutes e added tbl))"
      by (simp add: matcher_addRoutes_def createRouteMap_pathList)
    ultimately show "table_consistent (matcher_addRoutes e tbl added)
      \<and> (\<exists>new. pathList (registerRoutes e added tbl) = pathList tbl @ new)
      \<and> pathList (matcher_addRoutes e tbl added) =
          filter (\<lambda>p. p \<noteq> ''*'') (pathList (registerRoutes e added tbl))
          @ filter (\<lambda>p. p = ''*'') (pathList (registerRoutes e added tbl))"
      by blast
  qed
  from a b c show ?thesis by blast
qed

theorem route_table_invariant_witness:
  "table_consistent (built_table demo_env demo_routes [[plain_route ''/new'' None [] []]])
   \<and> wildcards_last (pathList (built_table demo_env demo_routes [[plain_route ''/new'' None [] []]]))
   \<and> pathList (registerRoutes demo_env demo_routes empty_table) = [''*'', ''/a/b'', ''/a'', ''/x'']
   \<and> pathList (createRouteMap demo_env demo_routes None) = [''/a/b'', ''/a'', ''/x'', ''*'']
   \<and> table_consistent demo_table
   \<and> table_consistent (matcher_addRoutes demo_env demo_table [plain_route ''/new'' None [] []])
   \<and> pathList (registerRoutes demo_env [plain_route ''/new'' None [] []] demo_table) =
        pathList demo_table @ [''/new'']
   \<and> pathList (matcher_addRoutes demo_env demo_table [plain_route ''/new'' None [] []]) =
        [''/a/b'', ''/a'', ''/x'', ''/new'', ''*'']"
proof -
  have c: "table_consistent demo_table"
    by (simp add: table_consistent_def demo_table_def) auto
  show ?thesis
    using route_table_invariant [of demo_env demo_routes "[[plain_route ''/new'' None [] []]]"
        demo_table "[plain_route ''/new'' None [] []]"] c
    by (simp add: demo_registered demo_table_more) (simp add: demo_table_def)
qed

section \<open>Properties of the matcher\<close>

lemma match_Suc:
  "match e tbl (Suc n) raw currentRoute redirectedFrom =
     (case match_lookup e tbl (normalizeLocation e raw currentRoute) currentRoute redirectedFrom of
        Inl err \<Rightarrow> Inl err
      | Inr (rcd, l, rf) \<Rightarrow> createRoute_m e tbl n rcd l rf)"
  unfolding match_def createRoute_m_def by simp

lemma createRoute_m_Suc:
  "createRoute_m e tbl (Suc n) rcd l redirectedFrom =
     (case rcd of
        None \<Rightarrow> Inr (createRoute e None l redirectedFrom)
      | Some r \<Rightarrow>
          if redirect_truthy (rec_redirect r)
          then redirect e tbl n r (case redirectedFrom of None \<Rightarrow> l | Some rf \<Rightarrow> rf)
          else if truthy (rec_matchAs r)
          then alias_m e tbl n r l (the (rec_matchAs r))
          else Inr (createRoute e rcd l redirectedFrom))"
  unfolding createRoute_m_def redirect_def alias_m_def by simp

lemma redirect_Suc:
  "redirect e tbl (Suc n) rcd l =
     (case redirect_target e rcd l of
        Some raw \<Rightarrow> match e tbl n raw None (Some l)
      | None \<Rightarrow> createRoute_m e tbl n None l None)"
  unfolding match_def createRoute_m_def redirect_def by simp

lemma alias_m_Suc:
  "alias_m e tbl (Suc n) rcd l matchAs =
     (case match e tbl n
             (RawLocation \<lparr> loc_normalized = True, loc_name = None,
                loc_path = Some (fillParams e matchAs (loc_params l)), loc_params = None,
                loc_query = None, loc_hash = None \<rparr>)
             None None of
        Inl err \<Rightarrow> Inl err
      | Inr aliasedMatch \<Rightarrow>
          createRoute_m e tbl n
            (js_index (route_matched aliasedMatch) (length (route_matched aliasedMatch) - 1))
            (l \<lparr> loc_params := Some (route_params aliasedMatch) \<rparr>) None)"
  unfolding match_def createRoute_m_def alias_m_def by simp

lemma matcher_stack_exhausted:
  "match e tbl 0 raw c rf = Inl RangeError" "createRoute_m e tbl 0 rcd l rf = Inl RangeError"
  "redirect e tbl 0 r l = Inl RangeError" "alias_m e tbl 0 r l m = Inl RangeError"
  by (simp_all add: match_def createRoute_m_def redirect_def alias_m_def)












lemmas matcher_eval =
  match_Suc createRoute_m_Suc normalizeLocation_def match_lookup_def named_location_def
  paramNames_def inherit_params_def demo_record_def demo_Regexp_def demo_parseLocation_def
  demo_fillParams_def seg_is_param_def seg_optional_def seg_name_def js_index_def
  strip_trailing_slash_def createRoute_def getFullPath_def matchRoute_def key_prop_def
  js_in_def obj_set_def object_prototype_keys_def named_loc_def path_loc_def

lemma shadow_table_built: "createRouteMap demo_env shadow_routes None = shadow_table"
proof -
  have "registerRoutes demo_env shadow_routes empty_table = shadow_table"
    by (simp add: table_eval shadow_routes_def shadow_table_def demo_record_def eval_nat_numeral
        del: fold_simps cong: fold_weak_cong let_weak_cong)
  then show ?thesis
    by (simp add: createRouteMap_def Let_def wildcard_loop_all) (simp add: shadow_table_def)
qed

lemma shadow_named:
  "match demo_env shadow_table (Suc (Suc 0)) (RawLocation (named_loc ''foo'' None)) None None =
     Inr \<lparr> route_ref = 0, route_name = Some ''foo'', route_path = ''/foo'', route_hash = [],
           route_query = [], route_params = [], route_fullPath = ''/foo'',
           route_matched = [demo_record 1 ''/foo'' (Some ''foo'') None None],
           route_redirectedFrom = None \<rparr>"
  by (simp add: matcher_eval shadow_table_def)

lemma shadow_path:
  "match demo_env shadow_table (Suc (Suc 0)) (RawString ''/foo'') None None =
     Inr \<lparr> route_ref = 0, route_name = None, route_path = ''/foo'', route_hash = [],
           route_query = [], route_params = [(''id'', Some ''foo'')], route_fullPath = ''/foo'',
           route_matched = [demo_record 0 ''/:id'' None None None],
           route_redirectedFrom = None \<rparr>"
  by (simp add: matcher_eval shadow_table_def)





text \<open>
  Claim C7, as stated, fails on the named route \<open>foo\<close> of the table built from
  \<open>shadow_routes\<close>: the name resolves through nameMap to the record of \<open>/foo\<close>
  (no redirect, no alias), while the full path \<open>/foo\<close> of that Route is matched in
  pathList order, where the earlier pattern \<open>/:id\<close> matches first.
\<close>

theorem rematch_named_counterexample:
  "createRouteMap demo_env shadow_routes None = shadow_table
   \<and> match demo_env shadow_table (Suc (Suc 0)) (RawLocation (named_loc ''foo'' None)) None None =
       Inr \<lparr> route_ref = 0, route_name = Some ''foo'', route_path = ''/foo'', route_hash = [],
             route_query = [], route_params = [], route_fullPath = ''/foo'',
             route_matched = [demo_record 1 ''/foo'' (Some ''foo'') None None],
             route_redirectedFrom = None \<rparr>
   \<and> rec_redirect (demo_record 1 ''/foo'' (Some ''foo'') None None) = None
   \<and> rec_matchAs (demo_record 1 ''/foo'' (Some ''foo'') None None) = None
   \<and> match demo_env shadow_table (Suc (Suc 0)) (RawString ''/foo'') None None =
       Inr \<lparr> route_ref = 0, route_name = None, route_path = ''/foo'', route_hash = [],
             route_query = [], route_params = [(''id'', Some ''foo'')], route_fullPath = ''/foo'',
             route_matched = [demo_record 0 ''/:id'' None None None],
             route_redirectedFrom = None \<rparr>
   \<and> [demo_record 0 ''/:id'' None None None] \<noteq> [demo_record 1 ''/foo'' (Some ''foo'') None None]"
  using shadow_table_built shadow_named shadow_path
  by (simp add: demo_record_def)

lemma matchRoute_loop_ok:
  "(\<forall>s. Some s \<in> set gs \<longrightarrow> decodeURIComponent e s \<noteq> None)
   \<Longrightarrow> \<exists>ps'. matchRoute_loop e ks gs j ps = Inr ps'"
proof (induction gs arbitrary: j ps)
  case Nil
  show ?case by simp
next
  case (Cons g gs)
  then have rest: "\<And>j ps. \<exists>ps'. matchRoute_loop e ks gs j ps = Inr ps'" by simp
  show ?case
  proof (cases g)
    case None
    with rest show ?thesis by (cases "js_index ks j") simp_all
  next
    case (Some s)
    with Cons.prems obtain d where "decodeURIComponent e s = Some d" by auto
    with Some rest show ?thesis by (cases "js_index ks j") simp_all
  qed
qed

lemma match_scan_found:
  "match_scan e tbl pl path pso = Inr (Some (rcd, ps'))
   \<Longrightarrow> \<exists>p. find (pattern_matches tbl path) pl = Some p \<and> pathMap tbl p = Some rcd"
proof (induction pl arbitrary: pso)
  case Nil
  then show ?case by simp
next
  case (Cons p pl)
  from Cons.prems obtain r0 where r0: "pathMap tbl p = Some r0"
    by (cases "pathMap tbl p") simp_all
  show ?case
  proof (cases "regex_match (rec_regex r0) path")
    case None
    with Cons.prems r0 have "match_scan e tbl pl path pso = Inr (Some (rcd, ps'))"
      by (simp add: matchRoute_def)
    from Cons.IH [OF this] None r0 show ?thesis
      by (simp add: pattern_matches_def)
  next
    case (Some m)
    with Cons.prems r0 have "r0 = rcd"
      by (auto simp: matchRoute_def split: option.splits sum.splits)
    with Some r0 show ?thesis by (simp add: pattern_matches_def)
  qed
qed

lemma match_scan_first_entry:
  assumes "find (pattern_matches tbl path) pl = Some p"
    and "pathMap tbl p = Some rcd"
    and "set pl \<subseteq> dom (pathMap tbl)"
    and "regex_match (rec_regex rcd) path = Some m"
    and "\<forall>s. Some s \<in> set m \<longrightarrow> decodeURIComponent e s \<noteq> None"
  shows "\<exists>ps'. match_scan e tbl pl path (Some ps) = Inr (Some (rcd, ps'))"
  using assms(1,3)
proof (induction pl)
  case Nil
  then show ?case by simp
next
  case (Cons q pl)
  from Cons.prems(2) obtain r0 where r0: "pathMap tbl q = Some r0" by auto
  show ?case
  proof (cases "pattern_matches tbl path q")
    case True
    with Cons.prems(1) have "q = p" by simp
    with r0 assms(2) have "r0 = rcd" by simp
    from matchRoute_loop_ok [OF assms(5), of "keys (rec_regex rcd)" 0 ps]
    obtain ps' where "matchRoute_loop e (keys (rec_regex rcd)) m 0 ps = Inr ps'" ..
    with r0 \<open>r0 = rcd\<close> assms(4) show ?thesis
      by (simp add: matchRoute_def)
  next
    case False
    with r0 have no: "regex_match (rec_regex r0) path = None"
      by (simp add: pattern_matches_def)
    from False Cons.prems have "find (pattern_matches tbl path) pl = Some p" "set pl \<subseteq> dom (pathMap tbl)"
      by simp_all
    from Cons.IH [OF this] obtain ps' where "match_scan e tbl pl path (Some ps) = Inr (Some (rcd, ps'))" ..
    with r0 no show ?thesis by (simp add: matchRoute_def)
  qed
qed

lemma last_formatMatch: "last (formatMatch r) = r"
  by (cases r) (simp split: option.split)

lemma formatMatch_inject: "formatMatch r1 = formatMatch r2 \<longleftrightarrow> r1 = r2"
  by (metis last_formatMatch)


lemma match_lookup_path_found:
  assumes "match_lookup e tbl l cur rf = Inr (Some rcd, l', rf')"
    and "\<not> truthy (loc_name l)"
  shows "truthy (loc_path l) \<and> loc_path l' = loc_path l
     \<and> (\<exists>ps. match_scan e tbl (pathList tbl) (the (loc_path l)) (Some []) = Inr (Some (rcd, ps)))"
  using assms
  by (auto simp: match_lookup_def split: if_splits sum.splits option.splits)

lemma formatMatch_createRoute:
  "route_matched (createRoute e (Some rcd) l rf) = formatMatch rcd"
  by (simp add: createRoute_def)

lemma route_path_createRoute:
  "route_path (createRoute e rcd l rf) = (if truthy (loc_path l) then the (loc_path l) else ''/'')"
  by (simp add: createRoute_def)

lemma first_match_of_scan:
  "match_scan e tbl (pathList tbl) path pso = Inr (Some (rcd, ps')) \<Longrightarrow> first_match tbl path = Some rcd"
  by (drule match_scan_found) (auto simp: first_match_def)

lemma rematch_first_entry:
  assumes "normalizeLocation e raw2 cur2 = l2"
    and "\<not> truthy (loc_name l2)"
    and "loc_path l2 = Some path"
    and "path \<noteq> []"
    and "match_scan e tbl (pathList tbl) path (Some []) = Inr (Some (rcd1, ps))"
    and "\<not> redirect_truthy (rec_redirect rcd1)"
    and "\<not> truthy (rec_matchAs rcd1)"
  shows "\<exists>r2. match e tbl (Suc (Suc m)) raw2 cur2 rf2 = Inr r2 \<and> route_matched r2 = formatMatch rcd1"
  using assms
  by (simp add: match_Suc createRoute_m_Suc match_lookup_def formatMatch_createRoute)

text \<open>
  Claim C7, amended. For an already-normalized location whose resolved record has no
  redirect and no alias target, consider matching again any input that the location
  parser turns into the path of the resulting Route (by the specification, its full
  path). In a consistent table whose captured groups decode, the second match resolves
  to the first entry of pathList whose pattern matches that path; when that record
  neither redirects nor is an alias, the second matched chain is the chain of that record,
  and it is identical to the first chain exactly when that record is the resolved record
  of the first match. For a location without a name this is always the case; for a
  location with a name it need not be.
\<close>

theorem rematch_same_chain:
  assumes "loc_normalized l"
    and "match_lookup e tbl l cur rf = Inr (Some rcd, l', rf')"
    and "\<not> redirect_truthy (rec_redirect rcd)"
    and "\<not> truthy (rec_matchAs rcd)"
    and "r = createRoute e (Some rcd) l' rf'"
    and "normalizeLocation e raw2 cur2 = l2"
    and "\<not> truthy (loc_name l2)"
    and "loc_path l2 = Some (route_path r)"
  shows "match e tbl (Suc (Suc n)) (RawLocation l) cur rf = Inr r
     \<and> (\<not> truthy (loc_name l) \<longrightarrow>
          first_match tbl (route_path r) = Some rcd
        \<and> (\<exists>r2. match e tbl (Suc (Suc m)) raw2 cur2 rf2 = Inr r2
               \<and> route_matched r2 = route_matched r))
     \<and> (\<forall>rcd1 groups.
          table_consistent tbl \<longrightarrow>
          first_match tbl (route_path r) = Some rcd1 \<longrightarrow>
          regex_match (rec_regex rcd1) (route_path r) = Some groups \<longrightarrow>
          (\<forall>s. Some s \<in> set groups \<longrightarrow> decodeURIComponent e s \<noteq> None) \<longrightarrow>
          \<not> redirect_truthy (rec_redirect rcd1) \<longrightarrow> \<not> truthy (rec_matchAs rcd1) \<longrightarrow>
          (\<exists>r2. match e tbl (Suc (Suc m)) raw2 cur2 rf2 = Inr r2
             \<and> route_matched r2 = formatMatch rcd1
             \<and> (route_matched r2 = route_matched r \<longleftrightarrow> rcd1 = rcd)))"
proof -
  have first: "match e tbl (Suc (Suc n)) (RawLocation l) cur rf = Inr r"
    using assms(1-5) by (simp add: match_Suc createRoute_m_Suc normalizeLocation_def)
  have nonempty: "route_path r \<noteq> []"
    unfolding assms(5) route_path_createRoute by (cases "loc_path l'") auto
  have chain: "route_matched r = formatMatch rcd"
    by (simp add: assms(5) formatMatch_createRoute)
  have by_path: "\<not> truthy (loc_name l) \<longrightarrow>
          first_match tbl (route_path r) = Some rcd
        \<and> (\<exists>r2. match e tbl (Suc (Suc m)) raw2 cur2 rf2 = Inr r2
               \<and> route_matched r2 = route_matched r)"
  proof
    assume nameless: "\<not> truthy (loc_name l)"
    from match_lookup_path_found [OF assms(2) nameless]
    obtain ps where
      "match_scan e tbl (pathList tbl) (route_path r) (Some []) = Inr (Some (rcd, ps))"
      unfolding assms(5) route_path_createRoute by auto
    from first_match_of_scan [OF this]
      rematch_first_entry [OF assms(6,7,8) nonempty this assms(3,4), of m rf2]
    show "first_match tbl (route_path r) = Some rcd
        \<and> (\<exists>r2. match e tbl (Suc (Suc m)) raw2 cur2 rf2 = Inr r2
               \<and> route_matched r2 = route_matched r)"
      unfolding chain by simp
  qed
  have general: "\<forall>rcd1 groups.
          table_consistent tbl \<longrightarrow>
          first_match tbl (route_path r) = Some rcd1 \<longrightarrow>
          regex_match (rec_regex rcd1) (route_path r) = Some groups \<longrightarrow>
          (\<forall>s. Some s \<in> set groups \<longrightarrow> decodeURIComponent e s \<noteq> None) \<longrightarrow>
          \<not> redirect_truthy (rec_redirect rcd1) \<longrightarrow> \<not> truthy (rec_matchAs rcd1) \<longrightarrow>
          (\<exists>r2. match e tbl (Suc (Suc m)) raw2 cur2 rf2 = Inr r2
             \<and> route_matched r2 = formatMatch rcd1
             \<and> (route_matched r2 = route_matched r \<longleftrightarrow> rcd1 = rcd))"
  proof (intro allI impI)
    fix rcd1 groups
    assume c: "table_consistent tbl"
      and f: "first_match tbl (route_path r) = Some rcd1"
      and g: "regex_match (rec_regex rcd1) (route_path r) = Some groups"
      and d: "\<forall>s. Some s \<in> set groups \<longrightarrow> decodeURIComponent e s \<noteq> None"
      and p: "\<not> redirect_truthy (rec_redirect rcd1)" "\<not> truthy (rec_matchAs rcd1)"
    from f obtain q where q: "find (pattern_matches tbl (route_path r)) (pathList tbl) = Some q"
      "pathMap tbl q = Some rcd1"
      by (auto simp: first_match_def split: option.splits)
    from c have "set (pathList tbl) \<subseteq> dom (pathMap tbl)"
      by (simp add: table_consistent_def)
    from match_scan_first_entry [OF q this g d, of "[]"]
    obtain ps where
      "match_scan e tbl (pathList tbl) (route_path r) (Some []) = Inr (Some (rcd1, ps))" ..
    from rematch_first_entry [OF assms(6,7,8) nonempty this p, of m rf2]
    show "\<exists>r2. match e tbl (Suc (Suc m)) raw2 cur2 rf2 = Inr r2
             \<and> route_matched r2 = formatMatch rcd1
             \<and> (route_matched r2 = route_matched r \<longleftrightarrow> rcd1 = rcd)"
      unfolding chain by (auto simp: formatMatch_inject)
  qed
  from first by_path general show ?thesis by blast
qed


theorem rematch_same_chain_witness:
  "loc_normalized (named_loc ''B'' None)
   \<and> truthy (loc_name (named_loc ''B'' None))
   \<and> match_lookup demo_env demo_table (named_loc ''B'' None) None None =
       Inr (Some (demo_record 2 ''/a/b'' (Some ''B'') (Some (demo_record 1 ''/a'' None None None)) None),
            (named_loc ''B'' (Some [])) \<lparr> loc_path := Some ''/a/b'' \<rparr>, None)
   \<and> table_consistent demo_table
   \<and> first_match demo_table ''/a/b'' =
       Some (demo_record 2 ''/a/b'' (Some ''B'') (Some (demo_record 1 ''/a'' None None None)) None)
   \<and> regex_match (rec_regex (demo_record 2 ''/a/b'' (Some ''B'')
          (Some (demo_record 1 ''/a'' None None None)) None)) ''/a/b'' = Some []
   \<and> normalizeLocation demo_env (RawString ''/a/b'') None = path_loc ''/a/b''
   \<and> match demo_env demo_table (Suc (Suc 0)) (RawLocation (named_loc ''B'' None)) None None =
       Inr \<lparr> route_ref = 0, route_name = Some ''B'', route_path = ''/a/b'', route_hash = [],
             route_query = [], route_params = [], route_fullPath = ''/a/b'',
             route_matched =
               [demo_record 1 ''/a'' None None None,
                demo_record 2 ''/a/b'' (Some ''B'') (Some (demo_record 1 ''/a'' None None None)) None],
             route_redirectedFrom = None \<rparr>
   \<and> (\<exists>r2. match demo_env demo_table (Suc (Suc 0)) (RawString ''/a/b'') None None = Inr r2
          \<and> route_matched r2 =
               [demo_record 1 ''/a'' None None None,
                demo_record 2 ''/a/b'' (Some ''B'') (Some (demo_record 1 ''/a'' None None None)) None])
   \<and> \<not> truthy (loc_name (path_loc ''/a''))
   \<and> match_lookup demo_env demo_table (path_loc ''/a'') None None =
       Inr (Some (demo_record 1 ''/a'' None None None),
            (path_loc ''/a'') \<lparr> loc_params := Some [] \<rparr>, None)
   \<and> first_match demo_table ''/a'' = Some (demo_record 1 ''/a'' None None None)
   \<and> (\<exists>r2. match demo_env demo_table (Suc (Suc 0)) (RawString ''/a'') None None = Inr r2
          \<and> route_matched r2 = [demo_record 1 ''/a'' None None None])"
proof -
  let ?a = "demo_record 1 ''/a'' None None None"
  let ?b = "demo_record 2 ''/a/b'' (Some ''B'') (Some ?a) None"
  let ?l' = "(named_loc ''B'' (Some [])) \<lparr> loc_path := Some ''/a/b'' \<rparr>"
  let ?r = "createRoute demo_env (Some ?b) ?l' None"
  let ?la = "(path_loc ''/a'') \<lparr> loc_params := Some [] \<rparr>"
  let ?ra = "createRoute demo_env (Some ?a) ?la None"
  have a1: "loc_normalized (named_loc ''B'' None)" by (simp add: named_loc_def)
  have a2: "match_lookup demo_env demo_table (named_loc ''B'' None) None None = Inr (Some ?b, ?l', None)"
    by (simp add: matcher_eval demo_table_def)
  have a3: "\<not> redirect_truthy (rec_redirect ?b)" "\<not> redirect_truthy (rec_redirect ?a)"
    by (simp_all add: demo_record_def)
  have a4: "\<not> truthy (rec_matchAs ?b)" "\<not> truthy (rec_matchAs ?a)"
    by (simp_all add: demo_record_def)
  have rp: "route_path ?r = ''/a/b''" "route_path ?ra = ''/a''"
    by (simp_all add: matcher_eval)
  have a6: "normalizeLocation demo_env (RawString ''/a/b'') None = path_loc ''/a/b''"
    "normalizeLocation demo_env (RawString ''/a'') None = path_loc ''/a''"
    by (simp_all add: matcher_eval)
  have a7: "\<not> truthy (loc_name (path_loc ''/a/b''))" "\<not> truthy (loc_name (path_loc ''/a''))"
    by (simp_all add: path_loc_def)
  have a8: "loc_path (path_loc ''/a/b'') = Some (route_path ?r)"
    "loc_path (path_loc ''/a'') = Some (route_path ?ra)"
    unfolding rp by (simp_all add: path_loc_def)
  have c: "table_consistent demo_table"
    by (auto simp: table_consistent_def demo_table_def split: if_splits)
  have f: "first_match demo_table ''/a/b'' = Some ?b"
    by (simp add: first_match_def pattern_matches_def matcher_eval demo_table_def)
  have g: "regex_match (rec_regex ?b) ''/a/b'' = Some []"
    by (simp add: matcher_eval)
  have b1: "loc_normalized (path_loc ''/a'')" by (simp add: path_loc_def)
  have b2: "match_lookup demo_env demo_table (path_loc ''/a'') None None = Inr (Some ?a, ?la, None)"
    by (simp add: matcher_eval demo_table_def)
  have r: "?r = \<lparr> route_ref = 0, route_name = Some ''B'', route_path = ''/a/b'', route_hash = [],
             route_query = [], route_params = [], route_fullPath = ''/a/b'',
             route_matched = [?a, ?b], route_redirectedFrom = None \<rparr>"
    by (simp add: matcher_eval)
  have chains: "formatMatch ?b = [?a, ?b]" "route_matched ?ra = [?a]"
    by (simp_all add: matcher_eval)
  note named = rematch_same_chain [OF a1 a2 a3(1) a4(1) refl a6(1) a7(1) a8(1), of 0 0 None]
  note by_path = rematch_same_chain [OF b1 b2 a3(2) a4(2) refl a6(2) a7(2) a8(2), of 0 0 None]
  from named have 1: "match demo_env demo_table (Suc (Suc 0)) (RawLocation (named_loc ''B'' None))
      None None = Inr ?r" by simp
  from named c f g a3 a4 have 2: "\<exists>r2. match demo_env demo_table (Suc (Suc 0)) (RawString ''/a/b'')
      None None = Inr r2 \<and> route_matched r2 = [?a, ?b]"
    using rp chains by auto
  from by_path a7 have 3: "first_match demo_table ''/a'' = Some ?a"
    "\<exists>r2. match demo_env demo_table (Suc (Suc 0)) (RawString ''/a'') None None = Inr r2
          \<and> route_matched r2 = [?a]"
    using rp chains by auto
  have t: "truthy (loc_name (named_loc ''B'' None))" by (simp add: named_loc_def)
  from a1 t a2 c f g a6(1) 1 [unfolded r] 2 a7(2) b2 3 show ?thesis by blast
qed

section \<open>Properties of the navigation controller\<close>






lemma guards_invoked_append:
  "guards_invoked (xs @ ys) = guards_invoked xs @ guards_invoked ys"
  by (induction xs rule: guards_invoked.induct) simp_all

lemma calls_of_listeners [simp]:
  "calls_of c (map (\<lambda>cb. ErrorListener cb err) cbs) = []"
  "calls_of c (map (\<lambda>cb. ReadyErrorListener cb err) cbs) = []"
  by (induction cbs) simp_all

lemma listener_calls_map [simp]:
  "listener_calls (map (\<lambda>cb. ErrorListener cb err) cbs) = map (\<lambda>cb. (cb, err)) cbs"
  "listener_calls (map (\<lambda>cb. ReadyErrorListener cb err) cbs) = []"
  by (induction cbs) simp_all

lemma guards_invoked_map [simp]:
  "guards_invoked (map (\<lambda>cb. ErrorListener cb err) cbs) = []"
  "guards_invoked (map (\<lambda>cb. ReadyErrorListener cb err) cbs) = []"
  by (induction cbs) simp_all



lemma abort_events_guards:
  "guards_invoked (abort_events st onAbort err) = []"
  by (cases onAbort) (auto simp: abort_events_def guards_invoked_append)















lemma pending_is_trace [simp]: "pending_is (st \<lparr> trace := t \<rparr>) r = pending_is st r"
  by (simp add: pending_is_def)






subsection \<open>Runs of the controller on the example router\<close>

lemmas engine_eval =
  transitionTo_def confirmTransition_def resolveQueue_eq first_divergence_def first_queue_def
  extractLeaveGuards_def extractUpdateHooks_def extractEnterGuards_def extractGuards_def
  component_slots_def slot_def_def bindGuard_def iterator_def invoke_guard_def
  hook_callback_def abort_def pending_is_def same_route_object_def emit_def ensureURL_def
  after_first_queue_def finish_transition_def transition_complete_def transition_abort_def
  updateRoute_def call_value_def resolveAsyncComponents_def initial_resolver_def
  demo_app_def demo_guard_def demo_isSameRoute_def START_def recording_backend_def
  error_value_def run_guard_def enter_callback_def calls_once_def throws_at_once_def Let_def










lemma small_table_grows:
  "matcher_addRoutes demo_env small_table [plain_route ''/new'' None [] []] = grown_table"
proof -
  have "registerRoutes demo_env [plain_route ''/new'' None [] []] small_table = grown_table"
    by (simp add: table_eval small_table_def grown_table_def demo_record_def eval_nat_numeral
        del: fold_simps cong: fold_weak_cong let_weak_cong)
  then show ?thesis
    by (simp add: matcher_addRoutes_def createRouteMap_def Let_def wildcard_loop_all)
       (simp add: grown_table_def)
qed

lemma grown_match_new:
  "match demo_env grown_table 2 (RawString ''/new'') (Some c) None =
     Inr \<lparr> route_ref = 0, route_name = None, route_path = ''/new'', route_hash = [],
           route_query = [], route_params = [], route_fullPath = ''/new'',
           route_matched = [demo_record 1 ''/new'' None None None],
           route_redirectedFrom = None \<rparr>"
  by (simp add: matcher_eval grown_table_def eval_nat_numeral)

text \<open>
  A counterexample to claim C1 as stated: the current Route is the failed match of
  \<open>/new\<close>; adding a route for that path through VueRouter.addRoutes runs a transition
  that commits a new current Route.
\<close>

theorem addRoutes_transition_counterexample:
  "route_matched (current lost_router) = []
   \<and> trace lost_router = []
   \<and> returned (router_addRoutes demo_env demo_app recording_backend
        [plain_route ''/new'' None [] []] lost_router)
   \<and> route_matched (current (final_state (router_addRoutes demo_env demo_app recording_backend
        [plain_route ''/new'' None [] []] lost_router))) = [demo_record 1 ''/new'' None None None]
   \<and> trace (final_state (router_addRoutes demo_env demo_app recording_backend
        [plain_route ''/new'' None [] []] lost_router)) =
       [GuardInvoked (ResolveAsync [demo_record 1 ''/new'' None None None]), EnsureURL None]"
  apply (simp add: router_addRoutes_def lost_router_def start_router_def route_nowhere_def
      small_table_grows Let_def)
  apply (simp add: transitionTo_def demo_app_def grown_match_new)
  apply (simp add: engine_eval demo_record_def)
  done


text \<open>
  Claim C1, amended. The addRoutes of the matcher only rebuilds the route table from the
  old one: it keeps every path of a consistent table and starts no transition.
  VueRouter.addRoutes does the same and nothing else (no event, current and pending
  unchanged) while the current Route is still the START sentinel; once another Route is
  current it goes on to start one transitionTo, without callbacks, for the location the
  URL backend reports, and returns what that transition leaves.
\<close>

theorem addRoutes_effect:
  "matcher_addRoutes e tbl routes = createRouteMap e routes (Some tbl)
   \<and> (table_consistent tbl \<longrightarrow>
        set (pathList tbl) \<subseteq> set (pathList (matcher_addRoutes e tbl routes)))
   \<and> (route_ref (current st) = 0 \<longrightarrow>
        (\<exists>st'. router_addRoutes e a be routes st = Done st'
           \<and> matcher_table st' = matcher_addRoutes e (matcher_table st) routes
           \<and> current st' = current st \<and> pending st' = pending st \<and> trace st' = trace st))
   \<and> (route_ref (current st) \<noteq> 0 \<longrightarrow>
        router_addRoutes e a be routes st =
          transitionTo e a be (RawString (url_location st)) None None
            (st \<lparr> matcher_table := matcher_addRoutes e (matcher_table st) routes \<rparr>))"
proof -
  have keeps: "set (pathList tbl) \<subseteq> set (pathList (matcher_addRoutes e tbl routes))"
    if "table_consistent tbl"
  proof -
    from registerRoutes_extends [of tbl e routes] that
    obtain ys where "pathList (registerRoutes e routes tbl) = pathList tbl @ ys"
      by (auto simp: extends_table_def)
    then show ?thesis
      by (auto simp: matcher_addRoutes_def createRouteMap_pathList)
  qed
  show ?thesis
    using keeps by (simp add: matcher_addRoutes_def router_addRoutes_def Let_def)
qed

theorem addRoutes_effect_witness:
  "table_consistent small_table
   \<and> set (pathList small_table) \<subseteq> set (pathList grown_table)
   \<and> route_ref (current start_router) = 0
   \<and> (\<exists>st'. router_addRoutes demo_env demo_app recording_backend
               [plain_route ''/new'' None [] []] start_router = Done st'
         \<and> current st' = current start_router \<and> trace st' = [])
   \<and> route_ref (current lost_router) \<noteq> 0
   \<and> router_addRoutes demo_env demo_app recording_backend
        [plain_route ''/new'' None [] []] lost_router =
      transitionTo demo_env demo_app recording_backend (RawString ''/new'') None None
        (lost_router \<lparr> matcher_table := grown_table \<rparr>)"
proof -
  let ?routes = "[plain_route ''/new'' None [] []]"
  have c: "table_consistent small_table"
    by (simp add: table_consistent_def small_table_def)
  have s: "route_ref (current start_router) = 0" "trace start_router = []"
    by (simp_all add: start_router_def START_def createRoute_def)
  have l: "route_ref (current lost_router) \<noteq> 0" "url_location lost_router = ''/new''"
    "matcher_table lost_router = small_table"
    by (simp_all add: lost_router_def start_router_def route_nowhere_def)
  note a = addRoutes_effect [of demo_env small_table ?routes start_router demo_app
      recording_backend]
  note b = addRoutes_effect [of demo_env small_table ?routes lost_router demo_app
      recording_backend]
  from a c have 1: "set (pathList small_table) \<subseteq> set (pathList grown_table)"
    by (simp add: small_table_grows)
  from a s have 2: "\<exists>st'. router_addRoutes demo_env demo_app recording_backend ?routes
        start_router = Done st' \<and> current st' = current start_router \<and> trace st' = []"
    by auto
  from b l have 3: "router_addRoutes demo_env demo_app recording_backend ?routes lost_router =
      transitionTo demo_env demo_app recording_backend (RawString ''/new'') None None
        (lost_router \<lparr> matcher_table := grown_table \<rparr>)"
    by (simp add: small_table_grows)
  from c 1 s(1) 2 l(1) 3 show ?thesis by blast
qed

section \<open>Lazy view resolution\<close>

text \<open>
  When no factory calls \<open>resolve\<close> or \<open>reject\<close> or throws while it runs, the
  traversal leaves the counter at the number of factories and calls the continuation
  only if there is none.
\<close>

lemma is_factory_slot_trace [simp]:
  "is_factory_slot (st \<lparr> trace := t \<rparr>) = is_factory_slot st"
  by (rule ext) (simp add: is_factory_slot_def slot_def_def)

lemma discover_deferred:
  assumes "\<And>f. fb_calls (factory_fn a f) = []" and "\<And>f. fb_throws (factory_fn a f) = None"
  shows "\<exists>evs. discover a nxt slots (rs, st) =
      (rs \<lparr> hasAsync := hasAsync rs \<or> filter (is_factory_slot st) slots \<noteq> [],
            res_pending := res_pending rs + int (length (filter (is_factory_slot st) slots)) \<rparr>,
       Done (st \<lparr> trace := trace st @ evs \<rparr>))"
proof (induction slots arbitrary: rs st)
  case Nil
  show ?case by (intro exI [of _ "[]"]) simp
next
  case (Cons s slots)
  obtain m key where s: "s = (m, key)" by (cases s)
  show ?case
  proof (cases "is_factory_slot st s")
    case False
    from Cons.IH [of rs st] obtain evs where
      "discover a nxt slots (rs, st) =
        (rs \<lparr> hasAsync := hasAsync rs \<or> filter (is_factory_slot st) slots \<noteq> [],
              res_pending := res_pending rs + int (length (filter (is_factory_slot st) slots)) \<rparr>,
         Done (st \<lparr> trace := trace st @ evs \<rparr>))" ..
    have "discover a nxt (s # slots) (rs, st) = discover a nxt slots (rs, st)"
      using False unfolding s is_factory_slot_def
      by (simp split: option.splits view_def.splits)
    with \<open>discover a nxt slots (rs, st) = _\<close> False show ?thesis
      by (intro exI [of _ evs]) simp
  next
    case True
    then obtain f where f: "slot_def st m key = Some (ViewFactory f)"
      by (auto simp: is_factory_slot_def s split: option.splits view_def.splits)
    let ?rs = "rs \<lparr> hasAsync := True, res_pending := res_pending rs + 1 \<rparr>"
    let ?st = "st \<lparr> trace := trace st @ [FactoryInvoked f] \<rparr>"
    have inv: "invoke_factory a nxt (rec_uid m, key) f (?rs, st) = (?rs, Done ?st)"
      by (simp add: invoke_factory_def assms emit_def)
    from Cons.IH [of ?rs ?st] obtain evs where
      "discover a nxt slots (?rs, ?st) =
        (?rs \<lparr> hasAsync := hasAsync ?rs \<or> filter (is_factory_slot ?st) slots \<noteq> [],
              res_pending := res_pending ?rs + int (length (filter (is_factory_slot ?st) slots)) \<rparr>,
         Done (?st \<lparr> trace := trace ?st @ evs \<rparr>))" ..
    with True s f inv show ?thesis
      by (intro exI [of _ "FactoryInvoked f # evs"]) simp
  qed
qed

lemma deferred_factories_counted:
  assumes "\<And>f. fb_calls (factory_fn a f) = []" and "\<And>f. fb_throws (factory_fn a f) = None"
  shows "res_pending (fst (resolveAsyncComponents a matched nxt st)) =
       int (length (filter (is_factory_slot st) (component_slots matched)))
     \<and> fired (fst (resolveAsyncComponents a matched nxt st)) =
       (if filter (is_factory_slot st) (component_slots matched) = [] then [JUndefined] else [])"
proof -
  from discover_deferred [OF assms, of nxt "component_slots matched" initial_resolver st]
  obtain evs where "discover a nxt (component_slots matched) (initial_resolver, st) =
      (initial_resolver
         \<lparr> hasAsync := hasAsync initial_resolver
              \<or> filter (is_factory_slot st) (component_slots matched) \<noteq> [],
           res_pending := res_pending initial_resolver
              + int (length (filter (is_factory_slot st) (component_slots matched))) \<rparr>,
       Done (st \<lparr> trace := trace st @ evs \<rparr>))" ..
  then show ?thesis
    by (simp add: resolveAsyncComponents_def initial_resolver_def)
qed

lemma settlements_after_traversal:
  "(slot \<notin> set (resolve_called rs) \<longrightarrow>
      res_pending (fst (resolve_cb nxt slot d (rs, st))) = res_pending rs - 1
    \<and> fired (fst (resolve_cb nxt slot d (rs, st))) =
        fired rs @ (if res_pending rs \<le> 1 then [JUndefined] else []))
   \<and> (slot \<in> set (resolve_called rs) \<longrightarrow> resolve_cb nxt slot d (rs, st) = (rs, Done st))
   \<and> (slot \<notin> set (reject_called rs) \<longrightarrow>
      fired (fst (reject_cb a nxt slot reason (rs, st))) =
        fired rs @ (if res_error rs = None then [reject_error a (snd slot) reason] else []))
   \<and> (slot \<in> set (reject_called rs) \<longrightarrow> reject_cb a nxt slot reason (rs, st) = (rs, Done st))"
  by (simp add: resolve_cb_def reject_cb_def Let_def)

subsection \<open>Factories that resolve at once\<close>

lemmas resolver_eval =
  resolveAsyncComponents_def initial_resolver_def component_slots_def slot_def_def
  invoke_factory_def settle_cb_def resolve_cb_def reject_cb_def reject_error_def
  lazy_chain_def lazy_record_def sync_app_def demo_app_def record_next_def emit_def
  start_router_def plain_view_def Let_def

text \<open>
  Claim C8. On a chain of two records whose factories call \<open>resolve\<close> before they
  return, the continuation of the step is called twice: the counter is back at zero after
  the first factory, before the second has been discovered, and again after the second.
\<close>

theorem sync_factories_fire_early:
  "fired (fst (resolveAsyncComponents sync_app lazy_chain record_next start_router)) =
     [JUndefined, JUndefined]
   \<and> res_pending (fst (resolveAsyncComponents sync_app lazy_chain record_next start_router)) = 0
   \<and> res_error (fst (resolveAsyncComponents sync_app lazy_chain record_next start_router)) = None
   \<and> trace (final_state (snd (resolveAsyncComponents sync_app lazy_chain record_next
        start_router))) =
       [FactoryInvoked 1, CallbackValue (UserCallback 0) JUndefined,
        FactoryInvoked 2, CallbackValue (UserCallback 0) JUndefined]"
  by (simp add: resolver_eval)

lemma lazy_match_q:
  "match demo_env lazy_table 2 (RawString ''/p/q'') (Some c) None =
     Inr (route_q \<lparr> route_ref := 0 \<rparr>)"
  by (simp add: matcher_eval lazy_table_def lazy_record_def lazy_chain_def route_q_def
        eval_nat_numeral)

lemma sync_factories_abort_and_commit:
  "returned (transitionTo demo_env sync_app recording_backend (RawString ''/p/q'')
       (Some (UserCallback 8)) (Some (UserCallback 9)) (start_router \<lparr> matcher_table := lazy_table \<rparr>))
   \<and> trace (final_state (transitionTo demo_env sync_app recording_backend (RawString ''/p/q'')
       (Some (UserCallback 8)) (Some (UserCallback 9))
       (start_router \<lparr> matcher_table := lazy_table \<rparr>))) =
       [GuardInvoked (ResolveAsync lazy_chain), FactoryInvoked 1, EnsureURL (Some True),
        ConsoleError (JError ''TypeError''), CallbackValue (UserCallback 9) (JError ''TypeError''),
        FactoryInvoked 2, CallbackRoute (UserCallback 8) route_q, EnsureURL None]
   \<and> current (final_state (transitionTo demo_env sync_app recording_backend (RawString ''/p/q'')
       (Some (UserCallback 8)) (Some (UserCallback 9))
       (start_router \<lparr> matcher_table := lazy_table \<rparr>))) = route_q"
  apply (simp add: transitionTo_def start_router_def sync_app_def demo_app_def lazy_match_q)
  apply (simp add: engine_eval resolver_eval hook_of_def route_q_def createRoute_def
      getFullPath_def)
  done

section \<open>Navigations whose guards all proceed\<close>

lemma queue_guards_simps [simp]:
  "queue_guards [] = []"
  "queue_guards (None # q) = queue_guards q"
  "queue_guards (Some g # q) = g # queue_guards q"
  "queue_guards (q @ q') = queue_guards q @ queue_guards q'"
  by (simp_all add: queue_guards_def)


lemma slot_def_cong:
  "comp_store st = comp_store st' \<Longrightarrow> slot_def st = slot_def st'"
  by (simp add: slot_def_def fun_eq_iff)

lemma extract_slots_cong:
  "slot_def st = slot_def st' \<Longrightarrow>
   extract_slots st name bind slots = extract_slots st' name bind slots"
  by (induction st name bind slots rule: extract_slots.induct) (simp_all split: sum.splits)

lemma extractGuards_cong:
  assumes "comp_store st = comp_store st'"
  shows "extractGuards st records name bind reverse = extractGuards st' records name bind reverse"
  unfolding extractGuards_def
  by (simp only: extract_slots_cong [OF slot_def_cong [OF assms]])

lemma extractEnterGuards_cong:
  "comp_store st = comp_store st' \<Longrightarrow>
   extractEnterGuards st records = extractEnterGuards st' records"
  unfolding extractEnterGuards_def by (rule extractGuards_cong)

lemma bindGuard_cong: "instances st = instances st' \<Longrightarrow> bindGuard st = bindGuard st'"
  by (simp add: bindGuard_def fun_eq_iff)

lemma first_queue_cong:
  assumes "comp_store st = comp_store st'" and "instances st = instances st'"
    and "beforeHooks st = beforeHooks st'"
  shows "first_queue st d = first_queue st' d"
  unfolding first_queue_def extractLeaveGuards_def extractUpdateHooks_def
  by (simp only: extractGuards_cong [OF assms(1)] bindGuard_cong [OF assms(2)] assms(3))

lemma is_factory_slot_cong:
  assumes "comp_store st = comp_store st'"
  shows "is_factory_slot st = is_factory_slot st'"
  by (rule ext) (simp add: is_factory_slot_def slot_def_cong [OF assms])

lemma proceeds_cong:
  assumes "comp_store st = comp_store st'"
  shows "proceeds a to from st g = proceeds a to from st' g"
  by (simp add: proceeds_def is_factory_slot_cong [OF assms] split: guard.split)

lemma proceeds_trace [simp]:
  "proceeds a to from (st \<lparr> trace := t \<rparr>) g = proceeds a to from st g"
  by (rule proceeds_cong) simp







lemma proceeds_fields [simp]:
  "proceeds a to from (st \<lparr> pending := x \<rparr>) g = proceeds a to from st g"
  "proceeds a to from (st \<lparr> postEnterCbs := y \<rparr>) g = proceeds a to from st g"
  "proceeds a to from (st \<lparr> next_ref := n \<rparr>) g = proceeds a to from st g"
  "proceeds a to from (st \<lparr> next_promise := m \<rparr>) g = proceeds a to from st g"
  by (rule proceeds_cong, simp)+



lemma first_queue_fields [simp]:
  "first_queue (st \<lparr> next_ref := n \<rparr>) d = first_queue st d"
  "first_queue (st \<lparr> next_promise := m \<rparr>) d = first_queue st d"
  by (rule first_queue_cong; simp)+

lemma extractEnterGuards_fields [simp]:
  "extractEnterGuards (st \<lparr> next_ref := n \<rparr>) records = extractEnterGuards st records"
  "extractEnterGuards (st \<lparr> next_promise := m \<rparr>) records = extractEnterGuards st records"
  by (rule extractEnterGuards_cong; simp)+

lemma abort_events_fields [simp]:
  "abort_events (st \<lparr> trace := t \<rparr>) oa v = abort_events st oa v"
  "abort_events (st \<lparr> pending := x \<rparr>) oa v = abort_events st oa v"
  "abort_events (st \<lparr> next_ref := n \<rparr>) oa v = abort_events st oa v"
  "abort_events (st \<lparr> next_promise := m \<rparr>) oa v = abort_events st oa v"
  by (simp_all add: abort_events_def)



section \<open>Properties of push and replace\<close>




lemma promise_of_ready_listeners:
  "promise_of p (map (\<lambda>cb. ReadyListener cb route) cbs) = PromisePending"
  by (induction cbs) simp_all





lemma promise_of_guards [simp]: "promise_of p (map GuardInvoked gs) = PromisePending"
  by (induction gs) simp_all

lemma promise_of_error_listeners [simp]:
  "promise_of p (map (\<lambda>cb. ErrorListener cb err) cbs) = PromisePending"
  by (induction cbs) simp_all















end
